theory Spec2Isabelle
  imports Main "HOL-Library.AList"
begin

section \<open>Data model of the chat client (src/app/App.tsx)\<close>

text \<open>
  A reactions object \<^verbatim>\<open>Record<string, string[]>\<close> is an association list from emoji
  to the list of reactor identifiers; a lookup is \<open>map_of\<close>. Fields that may be
  \<^verbatim>\<open>null\<close> or \<^verbatim>\<open>undefined\<close> in the source are options.
\<close>

type_synonym reactions = "(string \<times> string list) list"

text \<open>A row of the \<^verbatim>\<open>messages\<close> (or \<^verbatim>\<open>group_messages\<close>) table as the backend returns it.\<close>

record MessageRow =
  r_id :: string
  r_conversation_id :: string
  r_sender_id :: string
  r_text :: "string option"
  r_file_url :: "string option"
  r_file_type :: "string option"
  r_file_name :: "string option"
  r_created_at :: string
  r_is_read :: "bool option"
  r_reply_to_id :: "string option"
  r_reactions :: "reactions option"

text \<open>
  The interface \<^verbatim>\<open>Message\<close> of the local store, with the transient flag
  \<^verbatim>\<open>isOptimistic\<close> that \<^verbatim>\<open>handleSendMessage\<close> attaches (absent: \<open>None\<close>).
\<close>

record Message =
  m_id :: string
  m_senderId :: string
  m_text :: "string option"
  m_fileUrl :: "string option"
  m_fileType :: "string option"
  m_fileName :: "string option"
  m_timestamp :: string
  m_isRead :: bool
  m_replyToId :: "string option"
  m_reactions :: "reactions option"
  m_isOptimistic :: "bool option"

datatype error = BackendError string

section \<open>loadMessages: reconciliation of the local store with fetched rows\<close>

text \<open>The mapping of a fetched row (\<^verbatim>\<open>formattedMessages\<close>, lines 525 to 536).\<close>

definition formatMessage :: "MessageRow \<Rightarrow> Message" where
  "formatMessage m =
     \<lparr> m_id = r_id m,
       m_senderId = r_sender_id m,
       m_text = r_text m,
       m_fileUrl = r_file_url m,
       m_fileType = r_file_type m,
       m_fileName = r_file_name m,
       m_timestamp = r_created_at m,
       m_isRead = (case r_is_read m of Some b \<Rightarrow> b | None \<Rightarrow> False),
       m_replyToId = r_reply_to_id m,
       m_reactions = Some (case r_reactions m of Some rs \<Rightarrow> rs | None \<Rightarrow> []),
       m_isOptimistic = None \<rparr>"

text \<open>Truthiness of \<^verbatim>\<open>(m as any).isOptimistic\<close>.\<close>

definition isOptimistic :: "Message \<Rightarrow> bool" where
  "isOptimistic m = (m_isOptimistic m = Some True)"

text \<open>The reducer handed to \<^verbatim>\<open>setMessages\<close> (lines 538 to 545).\<close>

definition loadMessages_reducer :: "MessageRow list \<Rightarrow> Message list \<Rightarrow> Message list" where
  "loadMessages_reducer data prev =
     (let formattedMessages = map formatMessage data;
          optimistic = filter isOptimistic prev;
          confirmedIds = set (map m_id formattedMessages);
          remainingOptimistic = filter (\<lambda>m. m_id m \<notin> confirmedIds) optimistic
      in formattedMessages @ remainingOptimistic)"

text \<open>
  \<^verbatim>\<open>loadMessages\<close> as a whole (lines 493 to 545): \<open>selBefore\<close> and \<open>selAfter\<close> are the
  identifier of \<^verbatim>\<open>selectedChatRef.current\<close> before and after the fetch, \<open>fetched\<close> is
  what the backend answered (\<^verbatim>\<open>data\<close> may be \<^verbatim>\<open>null\<close>).
\<close>

definition loadMessages ::
  "string \<Rightarrow> string option \<Rightarrow> error + MessageRow list option \<Rightarrow> string option
     \<Rightarrow> Message list \<Rightarrow> error + Message list" where
  "loadMessages ident selBefore fetched selAfter prev =
     (if selBefore \<noteq> Some ident then Inr prev
      else case fetched of
             Inl e \<Rightarrow> Inl e
           | Inr data \<Rightarrow>
               if selAfter \<noteq> Some ident then Inr prev
               else Inr (loadMessages_reducer (case data of Some rows \<Rightarrow> rows | None \<Rightarrow> []) prev))"

text \<open>The entry built by \<^verbatim>\<open>handleSendMessage\<close> before the backend write (lines 598 to 609).\<close>

definition tempMessage ::
  "string \<Rightarrow> string \<Rightarrow> string \<Rightarrow> string option \<Rightarrow> string option \<Rightarrow> string option
     \<Rightarrow> string \<Rightarrow> string option \<Rightarrow> Message" where
  "tempMessage newMessageId senderId txt fileUrl fileType fileName now replyToId =
     \<lparr> m_id = newMessageId,
       m_senderId = senderId,
       m_text = Some txt,
       m_fileUrl = fileUrl,
       m_fileType = fileType,
       m_fileName = fileName,
       m_timestamp = now,
       m_isRead = False,
       m_replyToId = replyToId,
       m_reactions = None,
       m_isOptimistic = Some True \<rparr>"

text \<open>
  The entry built by \<^verbatim>\<open>handleSendVoiceMessage\<close> before the upload (lines 672 to 681,
  ``Optimistic Update for Voice''): it has no file name, no reply target, no
  reactions, and no \<^verbatim>\<open>isOptimistic\<close> field. \<open>label\<close> is the text of the entry, \<open>tempUrl\<close>
  the object URL of the recording.
\<close>

definition tempVoiceMessage ::
  "string \<Rightarrow> string \<Rightarrow> string \<Rightarrow> string \<Rightarrow> string \<Rightarrow> Message" where
  "tempVoiceMessage tempId senderId label tempUrl now =
     \<lparr> m_id = tempId,
       m_senderId = senderId,
       m_text = Some label,
       m_fileUrl = Some tempUrl,
       m_fileType = Some ''audio'',
       m_fileName = None,
       m_timestamp = now,
       m_isRead = False,
       m_replyToId = None,
       m_reactions = None,
       m_isOptimistic = None \<rparr>"

text \<open>
  The reducer with which both send handlers put their entry into the store
  (lines 612 and 683).
\<close>

definition appendLocal :: "Message \<Rightarrow> Message list \<Rightarrow> Message list" where
  "appendLocal entry prev = prev @ [entry]"

text \<open>The row the backend holds once the insert of lines 635 to 648 has been written.\<close>

definition insertedRow ::
  "string \<Rightarrow> string \<Rightarrow> string \<Rightarrow> string \<Rightarrow> string \<Rightarrow> MessageRow" where
  "insertedRow newMessageId conversationId senderId txt createdAt =
     \<lparr> r_id = newMessageId,
       r_conversation_id = conversationId,
       r_sender_id = senderId,
       r_text = Some txt,
       r_file_url = None,
       r_file_type = None,
       r_file_name = None,
       r_created_at = createdAt,
       r_is_read = Some False,
       r_reply_to_id = None,
       r_reactions = Some [] \<rparr>"


section \<open>handleReact: one reaction per user and message\<close>

text \<open>The read \<^verbatim>\<open>currentReactions[key] || []\<close>.\<close>

definition reactorsOf :: "reactions \<Rightarrow> string \<Rightarrow> string list" where
  "reactorsOf currentReactions key =
     (case map_of currentReactions key of Some ids \<Rightarrow> ids | None \<Rightarrow> [])"

text \<open>
  The body of the \<^verbatim>\<open>forEach\<close> over \<^verbatim>\<open>Object.keys(currentReactions)\<close> (lines 785 to
  788): the user is filtered out of the entry of \<open>key\<close>, and the entry is deleted when
  nothing is left of it.
\<close>

definition stripUser :: "string \<Rightarrow> string \<Rightarrow> reactions \<Rightarrow> reactions" where
  "stripUser userId key currentReactions =
     (let filtered = AList.update key
                       (filter (\<lambda>i. i \<noteq> userId) (reactorsOf currentReactions key))
                       currentReactions
      in if length (reactorsOf filtered key) = 0 then AList.delete key filtered else filtered)"

text \<open>The loop itself; the keys are read once, before the first iteration.\<close>

definition removeFromAll :: "string \<Rightarrow> reactions \<Rightarrow> reactions" where
  "removeFromAll userId currentReactions =
     fold (stripUser userId) (map fst currentReactions) currentReactions"

text \<open>
  The reactions object that \<^verbatim>\<open>handleReact\<close> computes for the user (lines 781 to 793);
  \<open>reactions0\<close> is the copy \<^verbatim>\<open>{ ...(message.reactions || {}) }\<close>.
\<close>

definition reactTo :: "string \<Rightarrow> string \<Rightarrow> reactions \<Rightarrow> reactions" where
  "reactTo userId emoji reactions0 =
     (let hadThisEmoji = userId \<in> set (reactorsOf reactions0 emoji);
          currentReactions = removeFromAll userId reactions0
      in if \<not> hadThisEmoji
         then AList.update emoji (reactorsOf currentReactions emoji @ [userId]) currentReactions
         else currentReactions)"

text \<open>The read \<^verbatim>\<open>message.reactions || {}\<close>.\<close>

definition reactionsOf :: "Message \<Rightarrow> reactions" where
  "reactionsOf message = (case m_reactions message of Some rs \<Rightarrow> rs | None \<Rightarrow> [])"

text \<open>
  \<^verbatim>\<open>handleReact\<close> up to its local update (lines 775 to 796): \<open>messages\<close> is the list
  the handler closes over, \<open>prev\<close> the list the \<^verbatim>\<open>setMessages\<close> reducer receives.
  Without a user or without the message nothing changes.
\<close>

definition handleReact ::
  "string option \<Rightarrow> Message list \<Rightarrow> string \<Rightarrow> string \<Rightarrow> Message list \<Rightarrow> Message list" where
  "handleReact currentUser messages messageId emoji prev =
     (case currentUser of
        None \<Rightarrow> prev
      | Some userId \<Rightarrow>
          (case find (\<lambda>m. m_id m = messageId) messages of
             None \<Rightarrow> prev
           | Some message \<Rightarrow>
               (let currentReactions =
                      reactTo userId emoji (reactionsOf message)
                in map (\<lambda>m. if m_id m = messageId
                             then m\<lparr>m_reactions := Some currentReactions\<rparr> else m) prev)))"

text \<open>
  Auxiliary, for the proofs only: what one iteration of the loop does to the entry of
  its key, as a function on the looked-up value.
\<close>

definition strip :: "string \<Rightarrow> string list option \<Rightarrow> string list option" where
  "strip userId entry =
     (case entry of
        None \<Rightarrow> None
      | Some ids \<Rightarrow> (if filter (\<lambda>i. i \<noteq> userId) ids = [] then None
                     else Some (filter (\<lambda>i. i \<noteq> userId) ids)))"


section \<open>loadChats: the conversation list\<close>

text \<open>
  The interface \<^verbatim>\<open>Chat\<close> (lines 25 to 34); \<^verbatim>\<open>partnerName\<close> is a string, as the
  interface declares it.
\<close>

record Chat =
  c_id :: string
  c_partnerId :: string
  c_partnerName :: string
  c_partnerAvatar :: "string option"
  c_lastMessage :: string
  c_lastMessageTime :: string
  c_unreadCount :: nat
  c_isGroup :: bool

text \<open>
  What the backend answers to the queries of \<^verbatim>\<open>loadChats\<close>. A joined row that is
  \<^verbatim>\<open>null\<close> is \<open>None\<close>; for \<^verbatim>\<open>profiles\<close>, \<open>None\<close> also stands for the array the
  source tests for with \<^verbatim>\<open>Array.isArray\<close>.
\<close>

record ConversationCache =
  cv_last_message_text :: "string option"
  cv_last_message_at :: "string option"

record UserConv =
  uc_conversation_id :: string
  uc_conversations :: "ConversationCache option"

record Profile =
  pr_display_name :: string
  pr_avatar_url :: "string option"

record Partner =
  p_conversation_id :: string
  p_user_id :: string
  p_profiles :: "Profile option"

record GroupInfo =
  g_id :: string
  g_name :: string
  g_updated_at :: string

record GroupMember =
  gm_group_id :: string
  gm_groups :: GroupInfo

record GroupLastMessage =
  lm_group_id :: string
  lm_text :: "string option"
  lm_created_at :: "string option"

record ChatsFetch =
  f_userConvs :: "error + UserConv list"
  f_partners :: "error + Partner list"
  f_unreadData :: "string list option"
  f_userGroups :: "error + GroupMember list option"
  f_groupUnreadData :: "string list option"
  f_lastMessages :: "GroupLastMessage list option"

text \<open>
  The counting loops of lines 384 to 387 and 450 to 453:
  \<^verbatim>\<open>map[k] = (map[k] || 0) + 1\<close> for every fetched unread row.
\<close>

definition countUnread :: "string list option \<Rightarrow> (string \<rightharpoonup> nat)" where
  "countUnread unreadData =
     fold (\<lambda>k m. m(k \<mapsto> (case m k of Some n \<Rightarrow> n | None \<Rightarrow> 0) + 1))
          (case unreadData of Some rows \<Rightarrow> rows | None \<Rightarrow> []) Map.empty"

text \<open>The read \<^verbatim>\<open>map[k] || 0\<close>.\<close>

definition unreadOf :: "(string \<rightharpoonup> nat) \<Rightarrow> string \<Rightarrow> nat" where
  "unreadOf m k = (case m k of Some n \<Rightarrow> n | None \<Rightarrow> 0)"

text \<open>\<^verbatim>\<open>x || d\<close> on a string that may be missing: the empty string is falsy.\<close>

definition orElse :: "string option \<Rightarrow> string \<Rightarrow> string" where
  "orElse x d = (case x of None \<Rightarrow> d | Some s \<Rightarrow> if s = [] then d else s)"

text \<open>The mapping of a 1:1 conversation (lines 390 to 408).\<close>

definition regularChat :: "Partner list \<Rightarrow> (string \<rightharpoonup> nat) \<Rightarrow> UserConv \<Rightarrow> Chat" where
  "regularChat partners unreadCountsMap item =
     (let partner = find (\<lambda>p. p_conversation_id p = uc_conversation_id item) partners;
          profile = (case partner of None \<Rightarrow> None | Some p \<Rightarrow> p_profiles p);
          partnerName = (case profile of Some pr \<Rightarrow> pr_display_name pr
                                        | None \<Rightarrow> ''Unknown User'')
      in \<lparr> c_id = uc_conversation_id item,
           c_partnerId = orElse (map_option p_user_id partner) ''unknown'',
           c_partnerName = partnerName,
           c_partnerAvatar = (case profile of Some pr \<Rightarrow> pr_avatar_url pr | None \<Rightarrow> None),
           c_lastMessage =
             orElse (case uc_conversations item of None \<Rightarrow> None
                     | Some cv \<Rightarrow> cv_last_message_text cv) [],
           c_lastMessageTime =
             orElse (case uc_conversations item of None \<Rightarrow> None
                     | Some cv \<Rightarrow> cv_last_message_at cv) [],
           c_unreadCount = unreadOf unreadCountsMap (uc_conversation_id item),
           c_isGroup = False \<rparr>)"

text \<open>The mapping of a group (lines 461 to 476).\<close>

definition groupChat ::
  "GroupLastMessage list option \<Rightarrow> (string \<rightharpoonup> nat) \<Rightarrow> GroupMember \<Rightarrow> Chat" where
  "groupChat lastMessages groupUnreadCountsMap item =
     (let grp = gm_groups item;
          lastMsg = (case lastMessages of None \<Rightarrow> None
                     | Some ms \<Rightarrow> find (\<lambda>m. lm_group_id m = g_id grp) ms)
      in \<lparr> c_id = g_id grp,
           c_partnerId = g_id grp,
           c_partnerName = g_name grp,
           c_partnerAvatar = None,
           c_lastMessage =
             orElse (case lastMsg of None \<Rightarrow> None | Some m \<Rightarrow> lm_text m) ''No messages yet'',
           c_lastMessageTime =
             orElse (case lastMsg of None \<Rightarrow> None | Some m \<Rightarrow> lm_created_at m)
                    (g_updated_at grp),
           c_unreadCount = unreadOf groupUnreadCountsMap (g_id grp),
           c_isGroup = True \<rparr>)"

text \<open>
  \<^verbatim>\<open>Array.prototype.sort\<close> with a comparison function: a stable sort, here by insertion
  from the right; \<open>x\<close> goes before \<open>y\<close> when the comparison is not positive. For a
  consistent comparison function the language fixes the result, the stable sorted
  arrangement, which is what the insertion computes.
\<close>

fun insertSorted :: "('a \<Rightarrow> 'a \<Rightarrow> int) \<Rightarrow> 'a \<Rightarrow> 'a list \<Rightarrow> 'a list" where
  "insertSorted cmp x [] = [x]"
| "insertSorted cmp x (y # ys) =
     (if cmp x y \<le> 0 then x # y # ys else y # insertSorted cmp x ys)"

definition sortArray :: "('a \<Rightarrow> 'a \<Rightarrow> int) \<Rightarrow> 'a list \<Rightarrow> 'a list" where
  "sortArray cmp xs = foldr (insertSorted cmp) xs []"

text \<open>
  The comparison function of line 480; \<open>localeCompare\<close> is the collation of the
  JavaScript engine, a parameter of the model.
\<close>

definition byPartnerName :: "(string \<Rightarrow> string \<Rightarrow> int) \<Rightarrow> Chat \<Rightarrow> Chat \<Rightarrow> int" where
  "byPartnerName localeCompare a b = localeCompare (c_partnerName a) (c_partnerName b)"

text \<open>What \<^verbatim>\<open>loadChats\<close> leaves behind when it does not throw.\<close>

record ChatsLoaded =
  l_chats :: "Chat list"
  l_playSound :: bool
  l_totalUnread :: nat

text \<open>
  \<^verbatim>\<open>loadChats\<close> (lines 335 to 491) on the answers of the backend; \<open>totalUnread\<close> is
  \<^verbatim>\<open>totalUnreadRef.current\<close>. An error of one of the three checked queries is thrown;
  without conversations the list is emptied and nothing else happens.
\<close>

definition loadChats ::
  "(string \<Rightarrow> string \<Rightarrow> int) \<Rightarrow> ChatsFetch \<Rightarrow> nat \<Rightarrow> error + ChatsLoaded" where
  "loadChats localeCompare fetched totalUnread =
     (case f_userConvs fetched of
        Inl convError \<Rightarrow> Inl convError
      | Inr userConvs \<Rightarrow>
          if length (map uc_conversation_id userConvs) = 0
          then Inr \<lparr> l_chats = [], l_playSound = False, l_totalUnread = totalUnread \<rparr>
          else
            (case f_partners fetched of
               Inl partError \<Rightarrow> Inl partError
             | Inr partners \<Rightarrow>
                 (let unreadCountsMap = countUnread (f_unreadData fetched);
                      regularChats = map (regularChat partners unreadCountsMap) userConvs
                  in case f_userGroups fetched of
                       Inl groupError \<Rightarrow> Inl groupError
                     | Inr groupData \<Rightarrow>
                         (let userGroups = (case groupData of Some d \<Rightarrow> d | None \<Rightarrow> []);
                              groupChats =
                                (if length userGroups > 0
                                 then map (groupChat (f_lastMessages fetched)
                                             (countUnread (f_groupUnreadData fetched))) userGroups
                                 else []);
                              allChats = sortArray (byPartnerName localeCompare)
                                           (regularChats @ groupChats);
                              newTotalUnread = foldl (\<lambda>sum c. sum + c_unreadCount c) 0 allChats
                          in Inr \<lparr> l_chats = allChats,
                                   l_playSound = (newTotalUnread > totalUnread),
                                   l_totalUnread = newTotalUnread \<rparr>))))"

text \<open>The reducer of \<^verbatim>\<open>handleSelectChat\<close> on the conversation list (line 566).\<close>

definition handleSelectChat_reducer :: "Chat \<Rightarrow> Chat list \<Rightarrow> Chat list" where
  "handleSelectChat_reducer chat prev =
     map (\<lambda>c. if c_id c = c_id chat then c\<lparr>c_unreadCount := 0\<rparr> else c) prev"

text \<open>The list is in the order of the names, as the collation compares them.\<close>

definition sortedByName :: "(string \<Rightarrow> string \<Rightarrow> int) \<Rightarrow> Chat list \<Rightarrow> bool" where
  "sortedByName localeCompare chats =
     sorted_wrt (\<lambda>a b. localeCompare (c_partnerName a) (c_partnerName b) \<le> 0) chats"

text \<open>
  A collation to try the model on: comparison of the character codes, from the left.
\<close>

fun ordinalCompare :: "string \<Rightarrow> string \<Rightarrow> int" where
  "ordinalCompare [] [] = 0"
| "ordinalCompare [] (y # ys) = - 1"
| "ordinalCompare (x # xs) [] = 1"
| "ordinalCompare (x # xs) (y # ys) =
     (if (of_char x :: nat) < of_char y then - 1
      else if (of_char y :: nat) < of_char x then 1
      else ordinalCompare xs ys)"

text \<open>Three conversations of a user, as the backend would answer for them.\<close>

definition sampleFetch :: ChatsFetch where
  "sampleFetch =
     \<lparr> f_userConvs = Inr
         [\<lparr> uc_conversation_id = ''c1'',
             uc_conversations = Some \<lparr> cv_last_message_text = Some ''see you'',
                                        cv_last_message_at = Some ''2025-01-03'' \<rparr> \<rparr>,
          \<lparr> uc_conversation_id = ''c2'',
             uc_conversations = Some \<lparr> cv_last_message_text = Some ''hello'',
                                        cv_last_message_at = Some ''2025-01-02'' \<rparr> \<rparr>],
       f_partners = Inr
         [\<lparr> p_conversation_id = ''c1'', p_user_id = ''u-zed'',
             p_profiles = Some \<lparr> pr_display_name = ''Zed'', pr_avatar_url = None \<rparr> \<rparr>,
          \<lparr> p_conversation_id = ''c2'', p_user_id = ''u-amy'',
             p_profiles = Some \<lparr> pr_display_name = ''Amy'', pr_avatar_url = None \<rparr> \<rparr>],
       f_unreadData = Some [''c1''],
       f_userGroups = Inr (Some
         [\<lparr> gm_group_id = ''g1'',
             gm_groups = \<lparr> g_id = ''g1'', g_name = ''Book club'', g_updated_at = ''2025-01-01'' \<rparr> \<rparr>]),
       f_groupUnreadData = Some [],
       f_lastMessages = Some
         [\<lparr> lm_group_id = ''g1'', lm_text = Some ''next week'',
             lm_created_at = Some ''2025-01-04'' \<rparr>] \<rparr>"

text \<open>The list \<^verbatim>\<open>loadChats\<close> makes of them under \<open>ordinalCompare\<close>.\<close>

definition sampleLoaded :: ChatsLoaded where
  "sampleLoaded =
     \<lparr> l_chats =
         [\<lparr> c_id = ''c2'', c_partnerId = ''u-amy'', c_partnerName = ''Amy'',
             c_partnerAvatar = None, c_lastMessage = ''hello'',
             c_lastMessageTime = ''2025-01-02'', c_unreadCount = 0, c_isGroup = False \<rparr>,
          \<lparr> c_id = ''g1'', c_partnerId = ''g1'', c_partnerName = ''Book club'',
             c_partnerAvatar = None, c_lastMessage = ''next week'',
             c_lastMessageTime = ''2025-01-04'', c_unreadCount = 0, c_isGroup = True \<rparr>,
          \<lparr> c_id = ''c1'', c_partnerId = ''u-zed'', c_partnerName = ''Zed'',
             c_partnerAvatar = None, c_lastMessage = ''see you'',
             c_lastMessageTime = ''2025-01-03'', c_unreadCount = 1, c_isGroup = False \<rparr>],
       l_playSound = True,
       l_totalUnread = 1 \<rparr>"


section \<open>The change-feed handler for inserted messages\<close>

text \<open>
  The part of the client state the handler of lines 850 to 881 reads and writes:
  \<^verbatim>\<open>selectedChatRef.current\<close>, the identifier of \<^verbatim>\<open>currentUserRef.current\<close>, the message
  store, the conversation list and \<^verbatim>\<open>totalUnreadRef.current\<close>.
\<close>

record ClientState =
  s_selectedChat :: "Chat option"
  s_currentUser :: "string option"
  s_messages :: "Message list"
  s_chats :: "Chat list"
  s_totalUnread :: nat

text \<open>
  What the handler asks of the outside: a call of \<^verbatim>\<open>playNotificationSound\<close>, or the
  backend update of \<^verbatim>\<open>markMessagesAsRead(conversationId, userId)\<close>.
\<close>

datatype effect = PlayNotificationSound | MarkMessagesAsRead string string

text \<open>The test \<^verbatim>\<open>currentChat && newMessage.conversation_id === currentChat.id\<close>.\<close>

definition openConversation :: "ClientState \<Rightarrow> MessageRow \<Rightarrow> bool" where
  "openConversation st newMessage =
     (case s_selectedChat st of
        Some currentChat \<Rightarrow> r_conversation_id newMessage = c_id currentChat
      | None \<Rightarrow> False)"

text \<open>The reducer of lines 859 to 873: \<^verbatim>\<open>prev.some(...)\<close> guards the append.\<close>

definition insertMessage_reducer :: "MessageRow \<Rightarrow> Message list \<Rightarrow> Message list" where
  "insertMessage_reducer newMessage prev =
     (if list_ex (\<lambda>m. m_id m = r_id newMessage) prev then prev
      else prev @ [formatMessage newMessage])"

text \<open>The two branches of the handler (lines 858 to 878).\<close>

definition messageInsert_branch :: "MessageRow \<Rightarrow> ClientState \<Rightarrow> ClientState \<times> effect list" where
  "messageInsert_branch newMessage st =
     (let currentChat = s_selectedChat st; me = s_currentUser st
      in if openConversation st newMessage
         then (st\<lparr>s_messages := insertMessage_reducer newMessage (s_messages st)\<rparr>,
               (case me of
                  Some u \<Rightarrow> [MarkMessagesAsRead (case currentChat of Some c \<Rightarrow> c_id c | None \<Rightarrow> []) u]
                | None \<Rightarrow> []))
         else (st,
               (case me of
                  Some u \<Rightarrow> if r_sender_id newMessage \<noteq> u then [PlayNotificationSound] else []
                | None \<Rightarrow> [])))"

text \<open>
  The refresh of line 880, \<^verbatim>\<open>if (me) loadChats(me.id)\<close>, with the sound logic of
  lines 484 to 490; \<open>fetched\<close> is what the backend answers to this call. A call that
  throws leaves the state as it is.
\<close>

definition messageInsert_refresh ::
  "(string \<Rightarrow> string \<Rightarrow> int) \<Rightarrow> ChatsFetch \<Rightarrow> ClientState \<Rightarrow> ClientState \<times> effect list" where
  "messageInsert_refresh localeCompare fetched st =
     (case s_currentUser st of
        None \<Rightarrow> (st, [])
      | Some u \<Rightarrow>
          (case loadChats localeCompare fetched (s_totalUnread st) of
             Inl e \<Rightarrow> (st, [])
           | Inr loaded \<Rightarrow>
               (st\<lparr>s_chats := l_chats loaded, s_totalUnread := l_totalUnread loaded\<rparr>,
                if l_playSound loaded then [PlayNotificationSound] else [])))"

text \<open>The handler: its branch, then the refresh.\<close>

definition onMessageInsert ::
  "(string \<Rightarrow> string \<Rightarrow> int) \<Rightarrow> ChatsFetch \<Rightarrow> MessageRow \<Rightarrow> ClientState
     \<Rightarrow> ClientState \<times> effect list" where
  "onMessageInsert localeCompare fetched newMessage st =
     (let (st1, effects1) = messageInsert_branch newMessage st;
          (st2, effects2) = messageInsert_refresh localeCompare fetched st1
      in (st2, effects1 @ effects2))"

text \<open>
  A client with the conversation \<open>c1\<close> with Zed open, one message of the user's own
  in the store and nothing unread so far, and the row of a message that Zed sends
  into \<open>c1\<close>.
\<close>

definition sampleState :: ClientState where
  "sampleState =
     \<lparr> s_selectedChat = Some
         \<lparr> c_id = ''c1'', c_partnerId = ''u-zed'', c_partnerName = ''Zed'',
           c_partnerAvatar = None, c_lastMessage = ''hi'',
           c_lastMessageTime = ''2025-01-01'', c_unreadCount = 0, c_isGroup = False \<rparr>,
       s_currentUser = Some ''u-me'',
       s_messages = [formatMessage (insertedRow ''x8'' ''c1'' ''u-me'' ''hi'' ''2025-01-01'')],
       s_chats = [],
       s_totalUnread = 0 \<rparr>"

definition sampleInsert :: MessageRow where
  "sampleInsert = insertedRow ''x9'' ''c1'' ''u-zed'' ''see you'' ''2025-01-03''"


section \<open>handleAcceptRequest: accepting a chat request\<close>

text \<open>
  The backend tables the handler writes: \<^verbatim>\<open>chat_requests\<close>, \<^verbatim>\<open>conversations\<close> and
  \<^verbatim>\<open>conversation_participants\<close>.
\<close>

datatype request_status = Pending | Accepted | Rejected




















section \<open>The polling fallback\<close>

text \<open>
  The interval callback of lines 1091 to 1114 is an asynchronous function: a call
  runs until its next \<^verbatim>\<open>await\<close> and is resumed when the awaited call settles, while
  other callbacks run in between. A call that is suspended is a sweep in flight,
  and its phase is the call it waits for.
\<close>

datatype sweep_phase = AwaitLoadChats | AwaitLoadMessages | AwaitFetchRequests

datatype settled = Resolved | Thrown

text \<open>
  The two refs of the guard and the counter (\<^verbatim>\<open>isPollingRef\<close>, \<^verbatim>\<open>consecutiveErrorsRef\<close>),
  the sweeps in flight, whether the interval is set, and whether
  \<^verbatim>\<open>selectedChatRef.current\<close> holds a chat.
\<close>

record PollState =
  isPolling :: bool
  consecutiveErrors :: nat
  sweeps :: "sweep_phase list"
  timerActive :: bool
  chatSelected :: bool

text \<open>
  What can happen: the interval fires; the call that the sweep at a position of the
  list waits for settles; the effect is cleaned up (\<^verbatim>\<open>clearInterval\<close>) or run again
  (\<^verbatim>\<open>setInterval\<close>); the selected chat changes.
\<close>

datatype poll_event =
    TimerFires
  | Settles nat settled
  | ClearInterval
  | SetInterval
  | SelectChat bool

text \<open>The \<^verbatim>\<open>finally\<close> block, after which the call at position \<open>i\<close> is over.\<close>

definition finish :: "nat \<Rightarrow> PollState \<Rightarrow> PollState" where
  "finish i s = s\<lparr>isPolling := False, sweeps := take i (sweeps s) @ drop (Suc i) (sweeps s)\<rparr>"

text \<open>
  The resumption of the call at position \<open>i\<close>. A call that throws goes to the
  \<^verbatim>\<open>catch\<close>, which counts, and to the \<^verbatim>\<open>finally\<close>. After \<^verbatim>\<open>loadChats\<close> the counter is
  reset and the selected chat decides whether \<^verbatim>\<open>loadMessages\<close> is called.
\<close>

definition resume :: "nat \<Rightarrow> settled \<Rightarrow> PollState \<Rightarrow> PollState" where
  "resume i outcome s =
     (if i \<ge> length (sweeps s) then s
      else case outcome of
        Thrown \<Rightarrow> finish i (s\<lparr>consecutiveErrors := consecutiveErrors s + 1\<rparr>)
      | Resolved \<Rightarrow>
          (case sweeps s ! i of
             AwaitLoadChats \<Rightarrow>
               s\<lparr>consecutiveErrors := 0,
                 sweeps := (sweeps s)[i := (if chatSelected s then AwaitLoadMessages
                                            else AwaitFetchRequests)]\<rparr>
           | AwaitLoadMessages \<Rightarrow> s\<lparr>sweeps := (sweeps s)[i := AwaitFetchRequests]\<rparr>
           | AwaitFetchRequests \<Rightarrow> finish i s))"

text \<open>
  One event. A firing interval runs the callback up to its first \<^verbatim>\<open>await\<close>: it
  returns at once when the guard is set, and otherwise sets the guard and calls
  \<^verbatim>\<open>loadChats\<close>.
\<close>

definition pollStep :: "poll_event \<Rightarrow> PollState \<Rightarrow> PollState" where
  "pollStep e s =
     (case e of
        TimerFires \<Rightarrow>
          (if \<not> timerActive s then s
           else if isPolling s then s
           else s\<lparr>isPolling := True, sweeps := sweeps s @ [AwaitLoadChats]\<rparr>)
      | Settles i outcome \<Rightarrow> resume i outcome s
      | ClearInterval \<Rightarrow> s\<lparr>timerActive := False\<rparr>
      | SetInterval \<Rightarrow> s\<lparr>timerActive := True\<rparr>
      | SelectChat b \<Rightarrow> s\<lparr>chatSelected := b\<rparr>)"

text \<open>The state once the effect has set the interval, and the state after a run of events.\<close>

definition pollInit :: "bool \<Rightarrow> PollState" where
  "pollInit chat =
     \<lparr> isPolling = False, consecutiveErrors = 0, sweeps = [], timerActive = True,
       chatSelected = chat \<rparr>"

definition pollRun :: "bool \<Rightarrow> poll_event list \<Rightarrow> PollState" where
  "pollRun chat events = fold pollStep events (pollInit chat)"

text \<open>A tick on which nothing throws: the interval fires and each awaited call resolves.\<close>

definition successfulTick :: "PollState \<Rightarrow> poll_event list" where
  "successfulTick s =
     [TimerFires, Settles 0 Resolved] @
     (if chatSelected s then [Settles 0 Resolved] else []) @
     [Settles 0 Resolved]"

text \<open>
  The invariant of the guard: it is set exactly while a sweep is in flight, and
  there is at most one.
\<close>

definition pollInv :: "PollState \<Rightarrow> bool" where
  "pollInv s = ((isPolling s \<longleftrightarrow> sweeps s \<noteq> []) \<and> length (sweeps s) \<le> 1)"


section \<open>Call signaling and the call window\<close>

text \<open>The interface \<^verbatim>\<open>CallState\<close> (lines 49 to 59).\<close>

datatype call_type = Audio | Video

datatype call_status = Ringing | Connected | Ended | Missed

record CallState =
  k_id :: string
  k_callerId :: string
  k_callerName :: string
  k_recipientId :: string
  k_type :: call_type
  k_status :: call_status
  k_offer :: "string option"
  k_answer :: "string option"
  k_iceCandidates :: "string list option"

text \<open>
  The objects of the browser that a call uses. They live on when the component that
  holds them is unmounted: a media track until \<^verbatim>\<open>stop()\<close>, a peer connection until
  \<^verbatim>\<open>close()\<close>. \<open>pc_added\<close> lists the candidates handed to \<^verbatim>\<open>addIceCandidate\<close>, in the
  order of the calls.
\<close>

record MediaTrack =
  tr_kind :: string
  tr_stopped :: bool

record PeerConnection =
  pc_closed :: bool
  pc_remoteDescription :: "string option"
  pc_added :: "string list"

text \<open>
  The state of a mounted \<^verbatim>\<open>CallWindow\<close>: which mount it is, \<^verbatim>\<open>localStream\<close> as the
  positions of its tracks among the tracks of the browser, \<^verbatim>\<open>pcRef.current\<close> as the
  position of its peer connection.
\<close>

record CallWindow =
  w_instance :: nat
  w_localStream :: "nat list option"
  w_pcRef :: "nat option"

text \<open>A signaling message sent by \<^verbatim>\<open>sendSignalingMessage\<close>: recipient, event, call.\<close>

record Signal =
  sg_recipientId :: string
  sg_event :: string
  sg_id :: string

text \<open>
  The application: the state \<^verbatim>\<open>activeCall\<close> and the ref \<^verbatim>\<open>activeCallRef\<close> that the
  handlers read, the mounted window if there is one, the number of mounts so far,
  the mounts whose \<^verbatim>\<open>getUserMedia\<close> has not settled yet, and the objects of the
  browser.
\<close>

record CallApp =
  a_currentUser :: "string option"
  a_activeCall :: "CallState option"
  a_activeCallRef :: "CallState option"
  a_window :: "CallWindow option"
  a_mounts :: nat
  a_mediaRequests :: "nat list"
  a_tracks :: "MediaTrack list"
  a_pcs :: "PeerConnection list"
  a_sent :: "Signal list"

record OfferPayload =
  o_id :: string
  o_callerId :: string
  o_callerName :: string
  o_recipientId :: string
  o_type :: call_type
  o_offer :: string

text \<open>
  The effect of lines 819 to 822, which runs after a render in which \<^verbatim>\<open>activeCall\<close>
  has changed: the ref takes the value of the state.
\<close>

definition syncRefs :: "CallApp \<Rightarrow> CallApp" where
  "syncRefs app = app\<lparr>a_activeCallRef := a_activeCall app\<rparr>"

text \<open>
  The handler of \<^verbatim>\<open>call-offer\<close> (lines 917 to 942): an offer for the local user is
  taken unless the ref holds a call; \<^verbatim>\<open>setActiveCall\<close> stores the new call, and the
  render mounts the window (lines 1482 to 1497) without stream and without peer
  connection, whose first effect calls \<^verbatim>\<open>getUserMedia\<close> (lines 1597 to 1619). A
  window that is mounted already stays, and calls \<^verbatim>\<open>getUserMedia\<close> again when the
  type of the call has changed.
\<close>

definition onCallOffer :: "OfferPayload \<Rightarrow> CallApp \<Rightarrow> CallApp" where
  "onCallOffer payload app =
     (case a_currentUser app of
        None \<Rightarrow> app
      | Some me \<Rightarrow>
          if o_recipientId payload \<noteq> me then app
          else if a_activeCallRef app \<noteq> None then app
          else
            (let call = \<lparr> k_id = o_id payload, k_callerId = o_callerId payload,
                          k_callerName = o_callerName payload, k_recipientId = me,
                          k_type = o_type payload, k_status = Ringing,
                          k_offer = Some (o_offer payload), k_answer = None,
                          k_iceCandidates = Some [] \<rparr>
             in case a_window app of
                  None \<Rightarrow>
                    app\<lparr>a_activeCall := Some call,
                        a_window := Some \<lparr> w_instance = a_mounts app, w_localStream = None,
                                           w_pcRef = None \<rparr>,
                        a_mounts := a_mounts app + 1,
                        a_mediaRequests := a_mediaRequests app @ [a_mounts app]\<rparr>
                | Some window \<Rightarrow>
                    app\<lparr>a_activeCall := Some call,
                        a_mediaRequests :=
                          (if map_option k_type (a_activeCall app) = Some (o_type payload)
                           then a_mediaRequests app
                           else a_mediaRequests app @ [w_instance window])\<rparr>))"

text \<open>
  The effect of lines 1692 to 1699, which React runs when the property
  \<^verbatim>\<open>remoteIceCandidates\<close> has changed: with a peer connection that has a remote
  description, every candidate of the list is handed to \<^verbatim>\<open>addIceCandidate\<close>.
\<close>

definition candidateEffect :: "CallApp \<Rightarrow> CallApp" where
  "candidateEffect app =
     (case (a_activeCall app, a_window app) of
        (Some call, Some window) \<Rightarrow>
          (case (k_iceCandidates call, w_pcRef window) of
             (Some remoteIceCandidates, Some h) \<Rightarrow>
               if h < length (a_pcs app) \<and> pc_remoteDescription (a_pcs app ! h) \<noteq> None
               then app\<lparr>a_pcs := (a_pcs app)
                          [h := (a_pcs app ! h)
                                  \<lparr>pc_added := pc_added (a_pcs app ! h) @ remoteIceCandidates\<rparr>]\<rparr>
               else app
           | _ \<Rightarrow> app)
      | _ \<Rightarrow> app)"

text \<open>
  The handler of \<^verbatim>\<open>ice-candidate\<close> (lines 949 to 960): for a candidate that is for
  the local user and for the call the ref holds, the reducer of \<^verbatim>\<open>setActiveCall\<close>
  appends it to the list of the call in the state; the changed list is a changed
  property of the window, so the effect above runs.
\<close>

definition onIceCandidate :: "string \<Rightarrow> string \<Rightarrow> string \<Rightarrow> CallApp \<Rightarrow> CallApp" where
  "onIceCandidate payloadId recipientId candidate app =
     (case (a_currentUser app, a_activeCallRef app) of
        (Some me, Some ref) \<Rightarrow>
          if recipientId = me \<and> k_id ref = payloadId
          then (case a_activeCall app of
                  None \<Rightarrow> app
                | Some prev \<Rightarrow>
                    candidateEffect
                      (app\<lparr>a_activeCall := Some
                             (prev\<lparr>k_iceCandidates := Some
                                ((case k_iceCandidates prev of Some cs \<Rightarrow> cs | None \<Rightarrow> [])
                                   @ [candidate])\<rparr>)\<rparr>))
          else app
      | _ \<Rightarrow> app)"

text \<open>
  \<^verbatim>\<open>getUserMedia\<close> resolves for the mount \<open>instance\<close> (lines 1598 to 1611): the new
  tracks are live, and \<^verbatim>\<open>setLocalStream\<close> stores the stream in the window of that
  mount. The source does not test whether the window is still mounted: for a window
  that is gone the tracks are live all the same, and nothing holds them.
\<close>

definition gotUserMedia :: "nat \<Rightarrow> string list \<Rightarrow> CallApp \<Rightarrow> CallApp" where
  "gotUserMedia instance kinds app =
     (if instance \<notin> set (a_mediaRequests app) then app
      else
        (let settled = app\<lparr>a_tracks := a_tracks app
                                @ map (\<lambda>k. \<lparr> tr_kind = k, tr_stopped = False \<rparr>) kinds,
                            a_mediaRequests := remove1 instance (a_mediaRequests app)\<rparr>
         in case a_window app of
              None \<Rightarrow> settled
            | Some window \<Rightarrow>
                if w_instance window = instance
                then settled\<lparr>a_window := Some (window\<lparr>w_localStream :=
                       Some [length (a_tracks app) ..< length (a_tracks app) + length kinds]\<rparr>)\<rparr>
                else settled))"

text \<open>
  The first part of \<^verbatim>\<open>initPC\<close> (lines 1623 to 1653): with a local stream and no peer
  connection yet, one is created and stored in \<^verbatim>\<open>pcRef\<close>.
\<close>

definition createPeerConnection :: "CallApp \<Rightarrow> CallApp" where
  "createPeerConnection app =
     (case a_window app of
        None \<Rightarrow> app
      | Some window \<Rightarrow>
          if w_localStream window = None \<or> w_pcRef window \<noteq> None then app
          else app\<lparr>a_pcs := a_pcs app
                       @ [\<lparr> pc_closed = False, pc_remoteDescription = None, pc_added = [] \<rparr>],
                   a_window := Some (window\<lparr>w_pcRef := Some (length (a_pcs app))\<rparr>)\<rparr>)"

text \<open>
  \<^verbatim>\<open>pcRef.current.setRemoteDescription\<close> has resolved, for the offer (line 1656) or
  for the answer (line 1687). No state and no property of the window changes, so no
  effect runs. The answer that the callee creates and sends after it (lines 1657 to
  1659) is not part of the model.
\<close>

definition remoteDescriptionSet :: "string \<Rightarrow> CallApp \<Rightarrow> CallApp" where
  "remoteDescriptionSet sdp app =
     (case a_window app of
        None \<Rightarrow> app
      | Some window \<Rightarrow>
          (case w_pcRef window of
             None \<Rightarrow> app
           | Some h \<Rightarrow>
               if h < length (a_pcs app)
               then app\<lparr>a_pcs := (a_pcs app)
                          [h := (a_pcs app ! h)\<lparr>pc_remoteDescription := Some sdp\<rparr>]\<rparr>
               else app))"

text \<open>
  The handler of \<^verbatim>\<open>call-ended\<close> (lines 961 to 969): when the ref holds the call of
  that identifier, \<^verbatim>\<open>setActiveCall(null)\<close> drops the call, which unmounts the window.
  No effect of the window returns a cleanup that does anything (lines 1679 to
  1682), so the unmount touches neither tracks nor peer connection.
\<close>

definition onCallEnded :: "string \<Rightarrow> CallApp \<Rightarrow> CallApp" where
  "onCallEnded payloadId app =
     (case a_activeCallRef app of
        None \<Rightarrow> app
      | Some ref \<Rightarrow>
          if k_id ref = payloadId then app\<lparr>a_activeCall := None, a_window := None\<rparr>
          else app)"

text \<open>\<^verbatim>\<open>cleanup\<close> of the window (lines 1579 to 1589).\<close>

definition cleanup :: "CallApp \<Rightarrow> CallApp" where
  "cleanup app =
     (case a_window app of
        None \<Rightarrow> app
      | Some window \<Rightarrow>
          (let stopped = fold (\<lambda>h ts. if h < length ts then ts[h := (ts ! h)\<lparr>tr_stopped := True\<rparr>]
                                       else ts)
                           (case w_localStream window of Some hs \<Rightarrow> hs | None \<Rightarrow> [])
                           (a_tracks app);
               closed = (case w_pcRef window of
                           Some h \<Rightarrow> if h < length (a_pcs app)
                                     then (a_pcs app)[h := (a_pcs app ! h)\<lparr>pc_closed := True\<rparr>]
                                     else a_pcs app
                         | None \<Rightarrow> a_pcs app)
           in app\<lparr>a_tracks := stopped, a_pcs := closed,
                  a_window := Some (window\<lparr>w_localStream := None, w_pcRef := None\<rparr>)\<rparr>))"

text \<open>
  \<^verbatim>\<open>handleEndCall\<close> of the application (lines 1302 to 1314): the peer of the call
  that the ref holds is told, the call is dropped and the window unmounted.
\<close>

definition handleEndCall :: "CallApp \<Rightarrow> CallApp" where
  "handleEndCall app =
     (let signals =
            (case a_activeCallRef app of
               None \<Rightarrow> []
             | Some call \<Rightarrow>
                 \<lparr> sg_recipientId = k_recipientId call, sg_event = ''call-ended'',
                   sg_id = k_id call \<rparr> #
                 (if a_currentUser app = Some (k_recipientId call)
                  then [\<lparr> sg_recipientId = k_callerId call, sg_event = ''call-ended'',
                          sg_id = k_id call \<rparr>]
                  else []))
      in app\<lparr>a_sent := a_sent app @ signals, a_activeCall := None, a_window := None\<rparr>)"

text \<open>\<^verbatim>\<open>handleEnd\<close> of the window, the local hang-up (lines 1591 to 1594).\<close>

definition handleEnd :: "CallApp \<Rightarrow> CallApp" where
  "handleEnd app = (case a_window app of None \<Rightarrow> app | Some _ \<Rightarrow> handleEndCall (cleanup app))"

text \<open>
  The events of a call on the side of the callee, and a run of them from the state
  of a signed-in user without a call.
\<close>

datatype call_event =
    CallOffer OfferPayload
  | RefsSynced
  | IceCandidate string string string
  | GotUserMedia nat "string list"
  | PeerConnectionCreated
  | RemoteDescriptionSet string
  | CallEnded string
  | HangUp

definition callStep :: "call_event \<Rightarrow> CallApp \<Rightarrow> CallApp" where
  "callStep e app =
     (case e of
        CallOffer payload \<Rightarrow> onCallOffer payload app
      | RefsSynced \<Rightarrow> syncRefs app
      | IceCandidate payloadId recipientId candidate \<Rightarrow>
          onIceCandidate payloadId recipientId candidate app
      | GotUserMedia instance kinds \<Rightarrow> gotUserMedia instance kinds app
      | PeerConnectionCreated \<Rightarrow> createPeerConnection app
      | RemoteDescriptionSet sdp \<Rightarrow> remoteDescriptionSet sdp app
      | CallEnded payloadId \<Rightarrow> onCallEnded payloadId app
      | HangUp \<Rightarrow> handleEnd app)"

definition callRun :: "string \<Rightarrow> call_event list \<Rightarrow> CallApp" where
  "callRun me events =
     fold callStep events
       \<lparr> a_currentUser = Some me, a_activeCall = None, a_activeCallRef = None,
         a_window = None, a_mounts = 0, a_mediaRequests = [],
         a_tracks = [], a_pcs = [], a_sent = [] \<rparr>"

text \<open>Alice calls Bob.\<close>

definition sampleOffer :: OfferPayload where
  "sampleOffer =
     \<lparr> o_id = ''k1'', o_callerId = ''alice'', o_callerName = ''Alice'',
       o_recipientId = ''bob'', o_type = Video, o_offer = ''offer-sdp'' \<rparr>"


section \<open>Properties of the reconciliation\<close>

lemma formatMessage_id [simp]: "m_id (formatMessage r) = r_id r"
  by (simp add: formatMessage_def)

lemma formatMessage_not_optimistic [simp]: "\<not> isOptimistic (formatMessage r)"
  by (simp add: formatMessage_def isOptimistic_def)

lemma reducer_unfold:
  "loadMessages_reducer data prev =
     map formatMessage data @
     filter (\<lambda>m. m_id m \<notin> r_id ` set data) (filter isOptimistic prev)"
  by (simp add: loadMessages_reducer_def Let_def comp_def image_image)

lemma loadMessages_selected:
  "loadMessages ident (Some ident) (Inr (Some data)) (Some ident) prev
     = Inr (loadMessages_reducer data prev)"
  by (simp add: loadMessages_def)

lemma filter_formatted_none:
  "filter (\<lambda>m. m_id m \<notin> r_id ` set data) (filter isOptimistic (map formatMessage data)) = []"
  by (induction data) auto

lemma count_formatted:
  "length (filter (\<lambda>m. m_id m = X) (map formatMessage data)) =
   length (filter (\<lambda>r. r_id r = X) data)"
  by (induction data) auto

lemma count_remaining_zero:
  "X \<in> r_id ` set data \<Longrightarrow>
   filter (\<lambda>m. m_id m = X) (filter (\<lambda>m. m_id m \<notin> r_id ` set data) ms) = []"
  by (induction ms) auto

lemma remaining_idem:
  "filter P (filter Q (filter P (filter Q ms))) = filter P (filter Q ms)"
  by (induction ms) auto

lemma reducer_idem:
  "loadMessages_reducer data (loadMessages_reducer data prev) = loadMessages_reducer data prev"
proof -
  let ?F = "map formatMessage data"
  let ?N = "\<lambda>m. m_id m \<notin> r_id ` set data"
  let ?R = "filter ?N (filter isOptimistic prev)"
  have "loadMessages_reducer data (?F @ ?R) = ?F @ filter ?N (filter isOptimistic (?F @ ?R))"
    by (rule reducer_unfold)
  also have "\<dots> = ?F @ (filter ?N (filter isOptimistic ?F) @ filter ?N (filter isOptimistic ?R))"
    by (simp only: filter_append)
  also have "\<dots> = ?F @ ?R"
    by (simp only: filter_formatted_none append_Nil remaining_idem)
  finally show ?thesis
    by (simp only: reducer_unfold)
qed

text \<open>
  What holds of the entries that carry the flag: such an entry whose identifier is
  not among the fetched rows is still in the list the reducer of \<^verbatim>\<open>loadMessages\<close>
  returns; and when exactly one fetched row has identifier \<open>X\<close> (identifiers are the
  primary key of the table), the list the reducer returns has exactly one entry
  with identifier \<open>X\<close>, whatever the local list held before.
\<close>

theorem optimistic_survival_and_dedup:
  "(m \<in> set prev \<and> isOptimistic m \<and> m_id m \<notin> r_id ` set data
      \<longrightarrow> m \<in> set (loadMessages_reducer data prev)) \<and>
   (length (filter (\<lambda>r. r_id r = X) data) = 1
      \<longrightarrow> length (filter (\<lambda>m. m_id m = X) (loadMessages_reducer data prev)) = 1)"
proof (intro conjI impI)
  assume "m \<in> set prev \<and> isOptimistic m \<and> m_id m \<notin> r_id ` set data"
  then show "m \<in> set (loadMessages_reducer data prev)"
    by (simp add: reducer_unfold)
next
  assume one: "length (filter (\<lambda>r. r_id r = X) data) = 1"
  then have "filter (\<lambda>r. r_id r = X) data \<noteq> []"
    by auto
  then have "X \<in> r_id ` set data"
    by (auto simp: filter_empty_conv)
  then have "filter (\<lambda>m. m_id m = X)
               (filter (\<lambda>m. m_id m \<notin> r_id ` set data) (filter isOptimistic prev)) = []"
    by (rule count_remaining_zero)
  moreover have "filter (\<lambda>m. m_id m = X) (loadMessages_reducer data prev) =
      filter (\<lambda>m. m_id m = X) (map formatMessage data) @
      filter (\<lambda>m. m_id m = X)
        (filter (\<lambda>m. m_id m \<notin> r_id ` set data) (filter isOptimistic prev))"
    by (simp only: reducer_unfold filter_append)
  ultimately show "length (filter (\<lambda>m. m_id m = X) (loadMessages_reducer data prev)) = 1"
    using one by (simp only: count_formatted append_Nil2)
qed

text \<open>
  A text message sent as \<open>x1\<close> is in flight while a reconciliation fetches no row,
  and is acknowledged by the next fetch.
\<close>

theorem optimistic_survival_and_dedup_witness:
  "tempMessage ''x1'' ''alice'' ''hi'' None None None ''t1'' None
     \<in> set (loadMessages_reducer []
              [tempMessage ''x1'' ''alice'' ''hi'' None None None ''t1'' None]) \<and>
   length (filter (\<lambda>m. m_id m = ''x1'')
     (loadMessages_reducer [insertedRow ''x1'' ''c1'' ''alice'' ''hi'' ''t2'']
        (loadMessages_reducer []
           [tempMessage ''x1'' ''alice'' ''hi'' None None None ''t1'' None]))) = 1"
proof -
  let ?t = "tempMessage ''x1'' ''alice'' ''hi'' None None None ''t1'' None"
  let ?r = "insertedRow ''x1'' ''c1'' ''alice'' ''hi'' ''t2''"
  have a: "?t \<in> set [?t] \<and> isOptimistic ?t \<and> m_id ?t \<notin> r_id ` set []"
    by (simp add: tempMessage_def isOptimistic_def)
  have b: "length (filter (\<lambda>r. r_id r = ''x1'') [?r]) = 1"
    by (simp add: insertedRow_def)
  from a optimistic_survival_and_dedup [of ?t "[?t]" "[]" "''x1''"]
  have "?t \<in> set (loadMessages_reducer [] [?t])"
    by blast
  moreover from b
    optimistic_survival_and_dedup [of ?t "loadMessages_reducer [] [?t]" "[?r]" "''x1''"]
  have "length (filter (\<lambda>m. m_id m = ''x1'')
          (loadMessages_reducer [?r] (loadMessages_reducer [] [?t]))) = 1"
    by blast
  ultimately show ?thesis
    by blast
qed

text \<open>
  Claim C1 (optimistic survival and deduplication) on the code: a voice message
  sent as \<open>v1\<close> is in flight, its entry appended to the store, when a
  reconciliation fetches the rows of the conversation, which do not hold \<open>v1\<close> yet.
  The entry does not carry the flag the reducer looks for, and the reducer drops
  it: the store is left empty. The entry of a text message in the same situation
  survives.
\<close>

theorem voice_entry_dropped:
  "appendLocal (tempVoiceMessage ''v1'' ''alice'' ''Voice Message'' ''blob:1'' ''t1'') []
     = [tempVoiceMessage ''v1'' ''alice'' ''Voice Message'' ''blob:1'' ''t1''] \<and>
   loadMessages_reducer []
     (appendLocal (tempVoiceMessage ''v1'' ''alice'' ''Voice Message'' ''blob:1'' ''t1'') []) = [] \<and>
   loadMessages ''c1'' (Some ''c1'') (Inr (Some [])) (Some ''c1'')
     (appendLocal (tempVoiceMessage ''v1'' ''alice'' ''Voice Message'' ''blob:1'' ''t1'') [])
     = Inr [] \<and>
   loadMessages_reducer [insertedRow ''x0'' ''c1'' ''bob'' ''hello'' ''t0'']
     (appendLocal (tempVoiceMessage ''v1'' ''alice'' ''Voice Message'' ''blob:1'' ''t1'')
        [formatMessage (insertedRow ''x0'' ''c1'' ''bob'' ''hello'' ''t0'')])
     = [formatMessage (insertedRow ''x0'' ''c1'' ''bob'' ''hello'' ''t0'')] \<and>
   loadMessages_reducer []
     (appendLocal (tempMessage ''x1'' ''alice'' ''hi'' None None None ''t1'' None) [])
     = [tempMessage ''x1'' ''alice'' ''hi'' None None None ''t1'' None]"
  by (simp add: loadMessages_def loadMessages_reducer_def appendLocal_def tempVoiceMessage_def
        tempMessage_def isOptimistic_def insertedRow_def formatMessage_def)

text \<open>
  Claim C2 (idempotent merge). Applying the reducer of \<^verbatim>\<open>loadMessages\<close> a second time
  with the same fetched rows returns the list the first application returned; and
  when the fetched rows have pairwise different identifiers and so have the
  optimistic entries of the local list, no identifier occurs twice in the result.
\<close>

theorem reconcile_idempotent:
  "loadMessages_reducer data (loadMessages_reducer data prev) = loadMessages_reducer data prev \<and>
   (distinct (map r_id data) \<and> distinct (map m_id (filter isOptimistic prev))
      \<longrightarrow> distinct (map m_id (loadMessages_reducer data (loadMessages_reducer data prev))))"
proof (intro conjI impI)
  show idem: "loadMessages_reducer data (loadMessages_reducer data prev)
                = loadMessages_reducer data prev"
    by (rule reducer_idem)
  assume d: "distinct (map r_id data) \<and> distinct (map m_id (filter isOptimistic prev))"
  then have "distinct (map m_id (filter (\<lambda>m. m_id m \<notin> r_id ` set data)
                                    (filter isOptimistic prev)))"
    by (blast intro: distinct_map_filter)
  moreover have "map m_id (map formatMessage data) = map r_id data"
    by simp
  moreover have "set (map m_id (map formatMessage data)) \<inter>
      set (map m_id (filter (\<lambda>m. m_id m \<notin> r_id ` set data) (filter isOptimistic prev))) = {}"
    by force
  ultimately have "distinct (map m_id (loadMessages_reducer data prev))"
    using d by (simp only: reducer_unfold map_append distinct_append simp_thms)
  with idem show "distinct (map m_id (loadMessages_reducer data (loadMessages_reducer data prev)))"
    by simp
qed

theorem reconcile_idempotent_witness:
  "loadMessages_reducer [insertedRow ''x1'' ''c1'' ''alice'' ''hi'' ''t2'']
     (loadMessages_reducer [insertedRow ''x1'' ''c1'' ''alice'' ''hi'' ''t2'']
        [tempMessage ''x1'' ''alice'' ''hi'' None None None ''t1'' None,
         tempMessage ''x2'' ''alice'' ''yo'' None None None ''t3'' None])
   = [formatMessage (insertedRow ''x1'' ''c1'' ''alice'' ''hi'' ''t2''),
      tempMessage ''x2'' ''alice'' ''yo'' None None None ''t3'' None] \<and>
   distinct (map m_id
     (loadMessages_reducer [insertedRow ''x1'' ''c1'' ''alice'' ''hi'' ''t2'']
        (loadMessages_reducer [insertedRow ''x1'' ''c1'' ''alice'' ''hi'' ''t2'']
           [tempMessage ''x1'' ''alice'' ''hi'' None None None ''t1'' None,
            tempMessage ''x2'' ''alice'' ''yo'' None None None ''t3'' None])))"
proof -
  let ?r = "insertedRow ''x1'' ''c1'' ''alice'' ''hi'' ''t2''"
  let ?p = "[tempMessage ''x1'' ''alice'' ''hi'' None None None ''t1'' None,
             tempMessage ''x2'' ''alice'' ''yo'' None None None ''t3'' None]"
  have h: "distinct (map r_id [?r]) \<and> distinct (map m_id (filter isOptimistic ?p))"
    by (simp add: tempMessage_def isOptimistic_def)
  have once: "loadMessages_reducer [?r] ?p
                = [formatMessage ?r, tempMessage ''x2'' ''alice'' ''yo'' None None None ''t3'' None]"
    by (simp add: reducer_unfold tempMessage_def insertedRow_def isOptimistic_def)
  from h reconcile_idempotent [of "[?r]" ?p] once show ?thesis
    by (simp add: tempMessage_def insertedRow_def)
qed

section \<open>Properties of handleReact\<close>

lemma strip_idem: "strip u (strip u e) = strip u e"
  by (cases e) (simp_all add: strip_def)

lemma map_of_stripUser:
  "map_of (stripUser u a cr) k = (if k = a then strip u (map_of cr a) else map_of cr k)"
  by (cases "map_of cr a")
     (simp_all add: stripUser_def reactorsOf_def Let_def strip_def update_conv' delete_conv')

lemma map_of_fold_stripUser:
  "map_of (fold (stripUser u) ks cr) k =
     (if k \<in> set ks then strip u (map_of cr k) else map_of cr k)"
  by (induction ks arbitrary: cr) (simp_all add: map_of_stripUser strip_idem)

lemma map_of_removeFromAll: "map_of (removeFromAll u rs) k = strip u (map_of rs k)"
proof (cases "k \<in> set (map fst rs)")
  case True
  then show ?thesis by (simp only: removeFromAll_def map_of_fold_stripUser if_True)
next
  case False
  then have "map_of rs k = None" by (simp add: map_of_eq_None_iff)
  with False show ?thesis
    by (simp only: removeFromAll_def map_of_fold_stripUser if_False) (simp add: strip_def)
qed

lemma reactorsOf_removeFromAll:
  "reactorsOf (removeFromAll u rs) k = filter (\<lambda>i. i \<noteq> u) (reactorsOf rs k)"
  by (cases "map_of rs k") (simp_all add: reactorsOf_def map_of_removeFromAll strip_def)

lemma reactorsOf_reactTo:
  "reactorsOf (reactTo u e rs) k =
     (if u \<notin> set (reactorsOf rs e) \<and> k = e
      then filter (\<lambda>i. i \<noteq> u) (reactorsOf rs e) @ [u]
      else filter (\<lambda>i. i \<noteq> u) (reactorsOf rs k))"
proof (cases "u \<in> set (reactorsOf rs e)")
  case True
  then show ?thesis by (simp add: reactTo_def Let_def reactorsOf_removeFromAll)
next
  case False
  have "reactorsOf (AList.update e v cr) k = (if k = e then v else reactorsOf cr k)" for v cr
    by (simp add: reactorsOf_def update_conv')
  with False show ?thesis
    by (simp add: reactTo_def Let_def reactorsOf_removeFromAll)
qed

lemma keys_reactTo_toggle:
  "u \<in> set (reactorsOf rs e) \<Longrightarrow>
   (k \<in> fst ` set (reactTo u e rs)) = (filter (\<lambda>i. i \<noteq> u) (reactorsOf rs k) \<noteq> [] )"
proof -
  assume h: "u \<in> set (reactorsOf rs e)"
  have "(k \<in> fst ` set (reactTo u e rs)) = (map_of (removeFromAll u rs) k \<noteq> None)"
    using h by (simp add: reactTo_def Let_def map_of_eq_None_iff)
  also have "\<dots> = (filter (\<lambda>i. i \<noteq> u) (reactorsOf rs k) \<noteq> [])"
    by (cases "map_of rs k") (simp_all add: map_of_removeFromAll strip_def reactorsOf_def)
  finally show ?thesis .
qed



lemma handleReact_found:
  "find (\<lambda>m. m_id m = messageId) messages = Some message \<Longrightarrow>
   handleReact (Some u) messages messageId emoji prev =
     map (\<lambda>m. if m_id m = messageId
              then m\<lparr>m_reactions := Some (reactTo u emoji (reactionsOf message))\<rparr> else m) prev"
  by (simp add: handleReact_def Let_def)

lemma handleReact_reactions:
  assumes "find (\<lambda>m. m_id m = messageId) messages = Some message"
    and "m' \<in> set (handleReact (Some u) messages messageId emoji prev)"
    and "m_id m' = messageId"
  shows "reactionsOf m' = reactTo u emoji (reactionsOf message)"
proof -
  let ?cr = "reactTo u emoji (reactionsOf message)"
  from assms(1,2) obtain m where m: "m \<in> set prev"
    and m': "m' = (if m_id m = messageId then m\<lparr>m_reactions := Some ?cr\<rparr> else m)"
    unfolding handleReact_found [OF assms(1)] by auto
  show ?thesis
  proof (cases "m_id m = messageId")
    case True
    with m' show ?thesis by (simp add: reactionsOf_def)
  next
    case False
    with m' assms(3) show ?thesis by simp
  qed
qed


lemma reactTo_exclusive:
  "(u \<notin> set (reactorsOf rs emojiB) \<longrightarrow>
       u \<in> set (reactorsOf (reactTo u emojiB rs) emojiB) \<and>
       (\<forall>emojiA. emojiA \<noteq> emojiB \<longrightarrow> u \<notin> set (reactorsOf (reactTo u emojiB rs) emojiA))) \<and>
   (\<forall>k1 k2. u \<in> set (reactorsOf (reactTo u emojiB rs) k1) \<and>
            u \<in> set (reactorsOf (reactTo u emojiB rs) k2) \<longrightarrow> k1 = k2)"
proof -
  have in_iff: "u \<in> set (reactorsOf (reactTo u emojiB rs) k) \<longleftrightarrow>
                  u \<notin> set (reactorsOf rs emojiB) \<and> k = emojiB" for k
    by (simp add: reactorsOf_reactTo)
  show ?thesis
    by (simp only: in_iff) blast
qed

text \<open>
  Claim C5 (reaction exclusivity). Let \<open>m'\<close> be the entry of the message after
  \<^verbatim>\<open>handleReact(messageId, emojiB)\<close> by user \<open>u\<close>. If \<open>u\<close> was not yet among the
  reactors of \<open>emojiB\<close>, then \<open>u\<close> is among the reactors of \<open>emojiB\<close> in \<open>m'\<close> and
  among the reactors of no other emoji, so \<open>u\<close> is gone from the set of any
  \<open>emojiA\<close> used before; and in every case \<open>u\<close> is among the reactors of at most one
  emoji of \<open>m'\<close>.
\<close>

theorem reaction_exclusivity:
  assumes "find (\<lambda>m. m_id m = messageId) messages = Some message"
    and "m' \<in> set (handleReact (Some u) messages messageId emojiB prev)"
    and "m_id m' = messageId"
  shows "(u \<notin> set (reactorsOf (reactionsOf message) emojiB) \<longrightarrow>
            u \<in> set (reactorsOf (reactionsOf m') emojiB) \<and>
            (\<forall>emojiA. emojiA \<noteq> emojiB \<longrightarrow> u \<notin> set (reactorsOf (reactionsOf m') emojiA))) \<and>
         (\<forall>k1 k2. u \<in> set (reactorsOf (reactionsOf m') k1) \<and>
                  u \<in> set (reactorsOf (reactionsOf m') k2) \<longrightarrow> k1 = k2)"
proof -
  have r: "reactionsOf m' = reactTo u emojiB (reactionsOf message)"
    using assms by (rule handleReact_reactions)
  show ?thesis
    unfolding r by (rule reactTo_exclusive)
qed

text \<open>
  Claim C9 (reaction toggle-off). When user \<open>u\<close> already is among the reactors of
  \<open>emoji\<close>, the entry \<open>m'\<close> of the message after \<^verbatim>\<open>handleReact(messageId, emoji)\<close> has
  \<open>u\<close> among the reactors of no emoji at all, and every emoji whose reactor list
  holds nobody but \<open>u\<close> is no key of the reactions of \<open>m'\<close> any more.
\<close>

theorem reaction_toggle_off:
  assumes "find (\<lambda>m. m_id m = messageId) messages = Some message"
    and "m' \<in> set (handleReact (Some u) messages messageId emoji prev)"
    and "m_id m' = messageId"
    and "u \<in> set (reactorsOf (reactionsOf message) emoji)"
  shows "(\<forall>k. u \<notin> set (reactorsOf (reactionsOf m') k)) \<and>
         (\<forall>k. filter (\<lambda>i. i \<noteq> u) (reactorsOf (reactionsOf message) k) = []
               \<longrightarrow> k \<notin> fst ` set (reactionsOf m'))"
proof -
  have r: "reactionsOf m' = reactTo u emoji (reactionsOf message)"
    using assms(1-3) by (rule handleReact_reactions)
  have a: "u \<notin> set (reactorsOf (reactTo u emoji (reactionsOf message)) k)" for k
    using assms(4) by (simp add: reactorsOf_reactTo)
  have b: "filter (\<lambda>i. i \<noteq> u) (reactorsOf (reactionsOf message) k) = []
             \<Longrightarrow> k \<notin> fst ` set (reactTo u emoji (reactionsOf message))" for k
    using keys_reactTo_toggle [OF assms(4), of k] by simp
  from a b show ?thesis
    unfolding r by blast
qed

lemma reactTo_example:
  "reactTo ''bob'' ''B'' [(''A'', [''bob'', ''carol''])] = [(''A'', [''carol'']), (''B'', [''bob''])]"
  by (simp add: reactTo_def removeFromAll_def stripUser_def reactorsOf_def Let_def)

lemma reactTo_example2:
  "reactTo ''bob'' ''A'' [(''A'', [''bob'']), (''C'', [''carol''])] = [(''C'', [''carol''])]"
  by (simp add: reactTo_def removeFromAll_def stripUser_def reactorsOf_def Let_def)

text \<open>Bob, who reacted with \<open>A\<close> as Carol did, reacts with \<open>B\<close>.\<close>

theorem reaction_exclusivity_witness:
  "find (\<lambda>m. m_id m = ''x1'')
     [formatMessage ((insertedRow ''x1'' ''c1'' ''alice'' ''hi'' ''t2'')
        \<lparr>r_reactions := Some [(''A'', [''bob'', ''carol''])]\<rparr>)]
     = Some (formatMessage ((insertedRow ''x1'' ''c1'' ''alice'' ''hi'' ''t2'')
        \<lparr>r_reactions := Some [(''A'', [''bob'', ''carol''])]\<rparr>)) \<and>
   handleReact (Some ''bob'')
     [formatMessage ((insertedRow ''x1'' ''c1'' ''alice'' ''hi'' ''t2'')
        \<lparr>r_reactions := Some [(''A'', [''bob'', ''carol''])]\<rparr>)] ''x1'' ''B''
     [formatMessage ((insertedRow ''x1'' ''c1'' ''alice'' ''hi'' ''t2'')
        \<lparr>r_reactions := Some [(''A'', [''bob'', ''carol''])]\<rparr>)]
     = [formatMessage ((insertedRow ''x1'' ''c1'' ''alice'' ''hi'' ''t2'')
        \<lparr>r_reactions := Some [(''A'', [''carol'']), (''B'', [''bob''])]\<rparr>)] \<and>
   ''bob'' \<in> set (reactorsOf (reactionsOf (formatMessage
        ((insertedRow ''x1'' ''c1'' ''alice'' ''hi'' ''t2'')
           \<lparr>r_reactions := Some [(''A'', [''bob'', ''carol''])]\<rparr>))) ''A'') \<and>
   ''bob'' \<in> set (reactorsOf (reactionsOf (formatMessage
        ((insertedRow ''x1'' ''c1'' ''alice'' ''hi'' ''t2'')
           \<lparr>r_reactions := Some [(''A'', [''carol'']), (''B'', [''bob''])]\<rparr>))) ''B'') \<and>
   ''bob'' \<notin> set (reactorsOf (reactionsOf (formatMessage
        ((insertedRow ''x1'' ''c1'' ''alice'' ''hi'' ''t2'')
           \<lparr>r_reactions := Some [(''A'', [''carol'']), (''B'', [''bob''])]\<rparr>))) ''A'')"
proof -
  let ?row = "insertedRow ''x1'' ''c1'' ''alice'' ''hi'' ''t2''"
  let ?message = "formatMessage (?row\<lparr>r_reactions := Some [(''A'', [''bob'', ''carol''])]\<rparr>)"
  let ?m' = "formatMessage (?row\<lparr>r_reactions := Some [(''A'', [''carol'']), (''B'', [''bob''])]\<rparr>)"
  have found: "find (\<lambda>m. m_id m = ''x1'') [?message] = Some ?message"
    by (simp add: insertedRow_def)
  have before: "reactionsOf ?message = [(''A'', [''bob'', ''carol''])]"
    by (simp add: reactionsOf_def formatMessage_def)
  have after: "handleReact (Some ''bob'') [?message] ''x1'' ''B'' [?message] = [?m']"
    by (simp add: handleReact_found [OF found] before reactTo_example)
       (simp add: formatMessage_def insertedRow_def)
  have mem: "?m' \<in> set (handleReact (Some ''bob'') [?message] ''x1'' ''B'' [?message])"
    by (simp only: after list.set insert_iff simp_thms)
  have ident: "m_id ?m' = ''x1''"
    by (simp add: insertedRow_def)
  have fresh: "''bob'' \<notin> set (reactorsOf (reactionsOf ?message) ''B'')"
    by (simp add: before reactorsOf_def)
  have was: "''bob'' \<in> set (reactorsOf (reactionsOf ?message) ''A'')"
    by (simp add: before reactorsOf_def)
  from reaction_exclusivity [OF found mem ident] fresh
  have "''bob'' \<in> set (reactorsOf (reactionsOf ?m') ''B'') \<and>
        ''bob'' \<notin> set (reactorsOf (reactionsOf ?m') ''A'')"
    by simp
  with found after was show ?thesis
    by (simp only: simp_thms)
qed

text \<open>Bob, the only one who reacted with \<open>A\<close>, reacts with \<open>A\<close> again.\<close>

theorem reaction_toggle_off_witness:
  "find (\<lambda>m. m_id m = ''x1'')
     [formatMessage ((insertedRow ''x1'' ''c1'' ''alice'' ''hi'' ''t2'')
        \<lparr>r_reactions := Some [(''A'', [''bob'']), (''C'', [''carol''])]\<rparr>)]
     = Some (formatMessage ((insertedRow ''x1'' ''c1'' ''alice'' ''hi'' ''t2'')
        \<lparr>r_reactions := Some [(''A'', [''bob'']), (''C'', [''carol''])]\<rparr>)) \<and>
   handleReact (Some ''bob'')
     [formatMessage ((insertedRow ''x1'' ''c1'' ''alice'' ''hi'' ''t2'')
        \<lparr>r_reactions := Some [(''A'', [''bob'']), (''C'', [''carol''])]\<rparr>)] ''x1'' ''A''
     [formatMessage ((insertedRow ''x1'' ''c1'' ''alice'' ''hi'' ''t2'')
        \<lparr>r_reactions := Some [(''A'', [''bob'']), (''C'', [''carol''])]\<rparr>)]
     = [formatMessage ((insertedRow ''x1'' ''c1'' ''alice'' ''hi'' ''t2'')
        \<lparr>r_reactions := Some [(''C'', [''carol''])]\<rparr>)] \<and>
   ''bob'' \<in> set (reactorsOf (reactionsOf (formatMessage
        ((insertedRow ''x1'' ''c1'' ''alice'' ''hi'' ''t2'')
           \<lparr>r_reactions := Some [(''A'', [''bob'']), (''C'', [''carol''])]\<rparr>))) ''A'') \<and>
   (\<forall>k. ''bob'' \<notin> set (reactorsOf (reactionsOf (formatMessage
        ((insertedRow ''x1'' ''c1'' ''alice'' ''hi'' ''t2'')
           \<lparr>r_reactions := Some [(''C'', [''carol''])]\<rparr>))) k)) \<and>
   ''A'' \<notin> fst ` set (reactionsOf (formatMessage
        ((insertedRow ''x1'' ''c1'' ''alice'' ''hi'' ''t2'')
           \<lparr>r_reactions := Some [(''C'', [''carol''])]\<rparr>)))"
proof -
  let ?row = "insertedRow ''x1'' ''c1'' ''alice'' ''hi'' ''t2''"
  let ?message = "formatMessage (?row\<lparr>r_reactions := Some [(''A'', [''bob'']), (''C'', [''carol''])]\<rparr>)"
  let ?m' = "formatMessage (?row\<lparr>r_reactions := Some [(''C'', [''carol''])]\<rparr>)"
  have found: "find (\<lambda>m. m_id m = ''x1'') [?message] = Some ?message"
    by (simp add: insertedRow_def)
  have before: "reactionsOf ?message = [(''A'', [''bob'']), (''C'', [''carol''])]"
    by (simp add: reactionsOf_def formatMessage_def)
  have after: "handleReact (Some ''bob'') [?message] ''x1'' ''A'' [?message] = [?m']"
    by (simp add: handleReact_found [OF found] before reactTo_example2)
       (simp add: formatMessage_def insertedRow_def)
  have mem: "?m' \<in> set (handleReact (Some ''bob'') [?message] ''x1'' ''A'' [?message])"
    by (simp only: after list.set insert_iff simp_thms)
  have ident: "m_id ?m' = ''x1''"
    by (simp add: insertedRow_def)
  have had: "''bob'' \<in> set (reactorsOf (reactionsOf ?message) ''A'')"
    by (simp add: before reactorsOf_def)
  have emptied: "filter (\<lambda>i. i \<noteq> ''bob'') (reactorsOf (reactionsOf ?message) ''A'') = []"
    by (simp add: before reactorsOf_def)
  from reaction_toggle_off [OF found mem ident had] emptied
  have "(\<forall>k. ''bob'' \<notin> set (reactorsOf (reactionsOf ?m') k)) \<and>
        ''A'' \<notin> fst ` set (reactionsOf ?m')"
    by blast
  with found after had show ?thesis
    by (simp only: simp_thms)
qed

section \<open>Properties of loadChats\<close>

lemma set_insertSorted: "set (insertSorted cmp x ys) = insert x (set ys)"
  by (induction ys) auto


lemma sorted_insertSorted:
  assumes total: "\<And>a b. cmp a b \<le> 0 \<or> cmp b a \<le> 0"
    and trans: "\<And>a b c. cmp a b \<le> 0 \<Longrightarrow> cmp b c \<le> 0 \<Longrightarrow> cmp a c \<le> 0"
  shows "sorted_wrt (\<lambda>a b. cmp a b \<le> 0) ys \<Longrightarrow> sorted_wrt (\<lambda>a b. cmp a b \<le> 0) (insertSorted cmp x ys)"
proof (induction ys)
  case Nil
  then show ?case by simp
next
  case (Cons y ys)
  show ?case
  proof (cases "cmp x y \<le> 0")
    case True
    with Cons.prems trans show ?thesis by (auto)
  next
    case False
    with total have "cmp y x \<le> 0" by blast
    with False Cons show ?thesis by (auto simp: set_insertSorted)
  qed
qed

lemma sorted_sortArray:
  assumes total: "\<And>a b. cmp a b \<le> 0 \<or> cmp b a \<le> 0"
    and trans: "\<And>a b c. cmp a b \<le> 0 \<Longrightarrow> cmp b c \<le> 0 \<Longrightarrow> cmp a c \<le> 0"
  shows "sorted_wrt (\<lambda>a b. cmp a b \<le> 0) (sortArray cmp xs)"
  by (induction xs) (simp_all add: sortArray_def sorted_insertSorted [OF total trans])

lemma ordinalCompare_total: "ordinalCompare a b \<le> 0 \<or> ordinalCompare b a \<le> 0"
  by (induction a b rule: ordinalCompare.induct) auto

lemma ordinalCompare_trans:
  "ordinalCompare a b \<le> 0 \<Longrightarrow> ordinalCompare b c \<le> 0 \<Longrightarrow> ordinalCompare a c \<le> 0"
proof (induction a arbitrary: b c)
  case Nil
  then show ?case by (cases c) simp_all
next
  case (Cons x xs)
  then obtain y ys where b: "b = y # ys" by (cases b) auto
  with Cons.prems obtain z zs where c: "c = z # zs" by (cases c) auto
  from Cons.prems Cons.IH [of ys zs] show ?case
    unfolding b c by (auto split: if_splits)
qed


lemma loadChats_sorted:
  assumes total: "\<And>a b. localeCompare a b \<le> 0 \<or> localeCompare b a \<le> 0"
    and trans: "\<And>a b c. localeCompare a b \<le> 0 \<Longrightarrow> localeCompare b c \<le> 0 \<Longrightarrow> localeCompare a c \<le> 0"
    and ok: "loadChats localeCompare fetched totalUnread = Inr loaded"
  shows "sortedByName localeCompare (l_chats loaded)"
proof -
  have srt: "sorted_wrt (\<lambda>a b. byPartnerName localeCompare a b \<le> 0)
               (sortArray (byPartnerName localeCompare) xs)" for xs
  proof (rule sorted_sortArray)
    show "byPartnerName localeCompare a b \<le> 0 \<or> byPartnerName localeCompare b a \<le> 0" for a b
      unfolding byPartnerName_def by (rule total)
    show "byPartnerName localeCompare a b \<le> 0 \<Longrightarrow> byPartnerName localeCompare b c \<le> 0
            \<Longrightarrow> byPartnerName localeCompare a c \<le> 0" for a b c
      unfolding byPartnerName_def by (rule trans)
  qed
  from ok show ?thesis
    using srt
    by (auto simp: loadChats_def sortedByName_def Let_def byPartnerName_def
             split: sum.splits if_splits)
qed

lemma select_sorted:
  "sortedByName localeCompare prev \<Longrightarrow>
   sortedByName localeCompare (handleSelectChat_reducer chat prev)"
  by (simp add: sortedByName_def handleSelectChat_reducer_def sorted_wrt_map)
     (erule sorted_wrt_mono_rel [rotated], simp)

text \<open>
  Claim C10 (conversation-list ordering). Let the collation \<open>localeCompare\<close> be a
  consistent comparison (any two names are comparable, and the comparison is
  transitive). Then every list that \<^verbatim>\<open>loadChats\<close> produces, 1:1 conversations and
  groups merged, is in the order of the partner or group names, whatever the times of
  the last messages are; and the reducer of \<^verbatim>\<open>handleSelectChat\<close> keeps a list that
  is in this order in this order.
\<close>

theorem chat_list_sorted_by_name:
  assumes "\<forall>a b. localeCompare a b \<le> 0 \<or> localeCompare b a \<le> 0"
    and "\<forall>a b c. localeCompare a b \<le> 0 \<and> localeCompare b c \<le> 0 \<longrightarrow> localeCompare a c \<le> 0"
  shows "(loadChats localeCompare fetched totalUnread = Inr loaded
            \<longrightarrow> sortedByName localeCompare (l_chats loaded)) \<and>
         (sortedByName localeCompare prev
            \<longrightarrow> sortedByName localeCompare (handleSelectChat_reducer chat prev))"
proof (intro conjI impI)
  assume "loadChats localeCompare fetched totalUnread = Inr loaded"
  with assms show "sortedByName localeCompare (l_chats loaded)"
    by (intro loadChats_sorted [of localeCompare fetched totalUnread loaded]) blast+
next
  assume "sortedByName localeCompare prev"
  then show "sortedByName localeCompare (handleSelectChat_reducer chat prev)"
    by (rule select_sorted)
qed


lemma loadChats_sample: "loadChats ordinalCompare sampleFetch 0 = Inr sampleLoaded"
  by (simp add: loadChats_def sampleFetch_def sampleLoaded_def Let_def regularChat_def
        groupChat_def countUnread_def unreadOf_def orElse_def sortArray_def byPartnerName_def)

text \<open>
  Three conversations under the comparison of character codes: the list comes out as
  Amy, Book club, Zed, although the last messages are of the 2nd, the 4th and the 3rd;
  selecting Zed clears its unread count and leaves the order alone.
\<close>

theorem chat_list_sorted_by_name_witness:
  "loadChats ordinalCompare sampleFetch 0 = Inr sampleLoaded \<and>
   map c_partnerName (l_chats sampleLoaded) = [''Amy'', ''Book club'', ''Zed''] \<and>
   map c_lastMessageTime (l_chats sampleLoaded) = [''2025-01-02'', ''2025-01-04'', ''2025-01-03''] \<and>
   sortedByName ordinalCompare (l_chats sampleLoaded) \<and>
   sortedByName ordinalCompare
     (handleSelectChat_reducer (last (l_chats sampleLoaded)) (l_chats sampleLoaded)) \<and>
   map c_unreadCount
     (handleSelectChat_reducer (last (l_chats sampleLoaded)) (l_chats sampleLoaded)) = [0, 0, 0]"
proof -
  have total: "\<forall>a b. ordinalCompare a b \<le> 0 \<or> ordinalCompare b a \<le> 0"
    by (simp add: ordinalCompare_total)
  have trans: "\<forall>a b c. ordinalCompare a b \<le> 0 \<and> ordinalCompare b c \<le> 0
                 \<longrightarrow> ordinalCompare a c \<le> 0"
    by (blast intro: ordinalCompare_trans)
  note inst = chat_list_sorted_by_name [OF total trans,
      of sampleFetch 0 sampleLoaded "l_chats sampleLoaded" "last (l_chats sampleLoaded)"]
  from inst loadChats_sample have s1: "sortedByName ordinalCompare (l_chats sampleLoaded)"
    by blast
  with inst have s2: "sortedByName ordinalCompare
     (handleSelectChat_reducer (last (l_chats sampleLoaded)) (l_chats sampleLoaded))"
    by blast
  have vals: "map c_partnerName (l_chats sampleLoaded) = [''Amy'', ''Book club'', ''Zed''] \<and>
      map c_lastMessageTime (l_chats sampleLoaded) = [''2025-01-02'', ''2025-01-04'', ''2025-01-03''] \<and>
      map c_unreadCount
        (handleSelectChat_reducer (last (l_chats sampleLoaded)) (l_chats sampleLoaded)) = [0, 0, 0]"
    by (simp add: sampleLoaded_def handleSelectChat_reducer_def)
  from loadChats_sample s1 s2 vals show ?thesis
    by (simp only: simp_thms)
qed

section \<open>Properties of the handler for inserted messages\<close>

lemma loadChats_playSound:
  "loadChats localeCompare fetched totalUnread = Inr loaded \<Longrightarrow>
   l_playSound loaded = (l_totalUnread loaded > totalUnread)"
  by (auto simp: loadChats_def Let_def split: sum.splits if_splits)

lemma branch_sound:
  "PlayNotificationSound \<in> set (snd (messageInsert_branch newMessage st)) \<longleftrightarrow>
     \<not> openConversation st newMessage \<and>
     (\<exists>u. s_currentUser st = Some u \<and> r_sender_id newMessage \<noteq> u)"
  by (cases "s_currentUser st") (auto simp: messageInsert_branch_def Let_def)

lemma branch_open:
  "openConversation st newMessage \<Longrightarrow>
     s_messages (fst (messageInsert_branch newMessage st))
       = insertMessage_reducer newMessage (s_messages st) \<and>
     (\<forall>u c. s_currentUser st = Some u \<and> s_selectedChat st = Some c
        \<longrightarrow> MarkMessagesAsRead (c_id c) u \<in> set (snd (messageInsert_branch newMessage st))) \<and>
     PlayNotificationSound \<notin> set (snd (messageInsert_branch newMessage st))"
  by (auto simp: messageInsert_branch_def Let_def split: option.splits)

lemma refresh_sound:
  "PlayNotificationSound \<in> set (snd (messageInsert_refresh localeCompare fetched st)) \<longleftrightarrow>
     s_currentUser st \<noteq> None \<and>
     (\<exists>loaded. loadChats localeCompare fetched (s_totalUnread st) = Inr loaded \<and>
               l_totalUnread loaded > s_totalUnread st)"
  by (auto simp: messageInsert_refresh_def loadChats_playSound split: option.splits sum.splits)

lemma onMessageInsert_effects:
  "snd (onMessageInsert localeCompare fetched newMessage st) =
     snd (messageInsert_branch newMessage st) @
     snd (messageInsert_refresh localeCompare fetched (fst (messageInsert_branch newMessage st)))"
  by (simp add: onMessageInsert_def Let_def split: prod.splits)

lemma branch_keeps:
  "s_currentUser (fst (messageInsert_branch newMessage st)) = s_currentUser st \<and>
   s_totalUnread (fst (messageInsert_branch newMessage st)) = s_totalUnread st"
  by (simp add: messageInsert_branch_def Let_def)

lemma refresh_keeps_messages:
  "s_messages (fst (messageInsert_refresh localeCompare fetched st)) = s_messages st"
  by (simp add: messageInsert_refresh_def split: option.splits sum.splits)

lemma onMessageInsert_state:
  "fst (onMessageInsert localeCompare fetched newMessage st) =
     fst (messageInsert_refresh localeCompare fetched (fst (messageInsert_branch newMessage st)))"
  by (simp add: onMessageInsert_def Let_def split: prod.splits)

lemma insertMessage_skip:
  "m \<in> set prev \<Longrightarrow> m_id m = r_id newMessage \<Longrightarrow> insertMessage_reducer newMessage prev = prev"
  by (auto simp: insertMessage_reducer_def list_ex_iff)

lemma insertMessage_append:
  "\<forall>m \<in> set prev. m_id m \<noteq> r_id newMessage \<Longrightarrow>
   insertMessage_reducer newMessage prev = prev @ [formatMessage newMessage]"
  by (auto simp: insertMessage_reducer_def list_ex_iff)

lemma sample_open: "openConversation sampleState sampleInsert"
  by (simp add: openConversation_def sampleState_def sampleInsert_def insertedRow_def)

lemma sample_effects:
  "snd (onMessageInsert ordinalCompare sampleFetch sampleInsert sampleState)
     = [MarkMessagesAsRead ''c1'' ''u-me'', PlayNotificationSound]"
proof -
  have "snd (messageInsert_branch sampleInsert sampleState) = [MarkMessagesAsRead ''c1'' ''u-me'']"
    using sample_open by (simp add: messageInsert_branch_def Let_def) (simp add: sampleState_def)
  moreover have "snd (messageInsert_refresh ordinalCompare sampleFetch
                        (fst (messageInsert_branch sampleInsert sampleState)))
                   = [PlayNotificationSound]"
    using loadChats_sample
    by (simp add: messageInsert_refresh_def branch_keeps sampleState_def sampleLoaded_def)
  ultimately show ?thesis
    by (simp add: onMessageInsert_effects)
qed

lemma sample_messages:
  "s_messages (fst (onMessageInsert ordinalCompare sampleFetch sampleInsert sampleState))
     = [formatMessage (insertedRow ''x8'' ''c1'' ''u-me'' ''hi'' ''2025-01-01''),
        formatMessage sampleInsert]"
  using sample_open
  by (simp add: onMessageInsert_state refresh_keeps_messages messageInsert_branch_def Let_def)
     (simp add: insertMessage_reducer_def sampleState_def sampleInsert_def insertedRow_def)

text \<open>
  What holds of the handler in general. Processing a message-insert event triggers a
  notification sound exactly when the event concerns a conversation other than the
  open one and a user is signed in who is not the sender, or when the refresh of the
  conversation list that the handler starts (\<^verbatim>\<open>loadChats\<close>) succeeds with a total
  unread count above the recorded one. For an insert into the open conversation the
  store is left as it is when it holds an entry of the identifier of the new row,
  and is the old store with the formatted row appended otherwise; the mark-as-read
  update is issued for the signed-in viewer; and the handler's own branch triggers
  no sound.
\<close>

theorem message_insert_handler_effects:
  "(PlayNotificationSound \<in> set (snd (onMessageInsert localeCompare fetched newMessage st)) \<longleftrightarrow>
      (\<not> openConversation st newMessage \<and>
       (\<exists>u. s_currentUser st = Some u \<and> r_sender_id newMessage \<noteq> u)) \<or>
      (s_currentUser st \<noteq> None \<and>
       (\<exists>loaded. loadChats localeCompare fetched (s_totalUnread st) = Inr loaded \<and>
                 l_totalUnread loaded > s_totalUnread st))) \<and>
   (openConversation st newMessage \<longrightarrow>
      ((\<exists>m \<in> set (s_messages st). m_id m = r_id newMessage)
         \<longrightarrow> s_messages (fst (onMessageInsert localeCompare fetched newMessage st))
               = s_messages st) \<and>
      ((\<forall>m \<in> set (s_messages st). m_id m \<noteq> r_id newMessage)
         \<longrightarrow> s_messages (fst (onMessageInsert localeCompare fetched newMessage st))
               = s_messages st @ [formatMessage newMessage]) \<and>
      (\<forall>u c. s_currentUser st = Some u \<and> s_selectedChat st = Some c
         \<longrightarrow> MarkMessagesAsRead (c_id c) u
               \<in> set (snd (onMessageInsert localeCompare fetched newMessage st))) \<and>
      PlayNotificationSound \<notin> set (snd (messageInsert_branch newMessage st)))"
proof (intro conjI impI)
  show "PlayNotificationSound \<in> set (snd (onMessageInsert localeCompare fetched newMessage st)) \<longleftrightarrow>
      (\<not> openConversation st newMessage \<and>
       (\<exists>u. s_currentUser st = Some u \<and> r_sender_id newMessage \<noteq> u)) \<or>
      (s_currentUser st \<noteq> None \<and>
       (\<exists>loaded. loadChats localeCompare fetched (s_totalUnread st) = Inr loaded \<and>
                 l_totalUnread loaded > s_totalUnread st))"
    by (simp only: onMessageInsert_effects set_append Un_iff branch_sound refresh_sound
          branch_keeps)
next
  assume op: "openConversation st newMessage"
  have merged: "s_messages (fst (onMessageInsert localeCompare fetched newMessage st))
          = insertMessage_reducer newMessage (s_messages st)"
    using branch_open [OF op]
    by (simp only: onMessageInsert_state refresh_keeps_messages)
  {
    assume "\<exists>m \<in> set (s_messages st). m_id m = r_id newMessage"
    then obtain m where "m \<in> set (s_messages st)" "m_id m = r_id newMessage" by blast
    then show "s_messages (fst (onMessageInsert localeCompare fetched newMessage st))
                 = s_messages st"
      by (simp only: merged insertMessage_skip)
  }
  {
    assume "\<forall>m \<in> set (s_messages st). m_id m \<noteq> r_id newMessage"
    then show "s_messages (fst (onMessageInsert localeCompare fetched newMessage st))
                 = s_messages st @ [formatMessage newMessage]"
      by (simp only: merged insertMessage_append)
  }
  show "\<forall>u c. s_currentUser st = Some u \<and> s_selectedChat st = Some c
         \<longrightarrow> MarkMessagesAsRead (c_id c) u
               \<in> set (snd (onMessageInsert localeCompare fetched newMessage st))"
    using branch_open [OF op]
    by (simp only: onMessageInsert_effects set_append Un_iff) blast
  show "PlayNotificationSound \<notin> set (snd (messageInsert_branch newMessage st))"
    using branch_open [OF op] by blast
qed

text \<open>
  Claim C6 (notification-sound policy) on the code: Zed's message arrives in the
  open conversation \<open>c1\<close>. It is appended to the store, after the entry that is
  there, and the mark-as-read update is issued for the viewer; a second delivery
  of the same row leaves the store as it is. But the refresh that the handler
  starts finds the new row among the unread rows, so that the total rises from 0 to
  1 and \<^verbatim>\<open>loadChats\<close> calls \<^verbatim>\<open>playNotificationSound\<close>: the sound is triggered for the
  conversation that is open.
\<close>

theorem sound_for_open_conversation:
  "openConversation sampleState sampleInsert \<and>
   s_messages (fst (onMessageInsert ordinalCompare sampleFetch sampleInsert sampleState))
     = [formatMessage (insertedRow ''x8'' ''c1'' ''u-me'' ''hi'' ''2025-01-01''),
        formatMessage sampleInsert] \<and>
   s_messages (fst (onMessageInsert ordinalCompare sampleFetch sampleInsert
                      (fst (onMessageInsert ordinalCompare sampleFetch sampleInsert sampleState))))
     = [formatMessage (insertedRow ''x8'' ''c1'' ''u-me'' ''hi'' ''2025-01-01''),
        formatMessage sampleInsert] \<and>
   snd (onMessageInsert ordinalCompare sampleFetch sampleInsert sampleState)
     = [MarkMessagesAsRead ''c1'' ''u-me'', PlayNotificationSound]"
proof -
  let ?st1 = "fst (onMessageInsert ordinalCompare sampleFetch sampleInsert sampleState)"
  have sel: "s_selectedChat ?st1 = s_selectedChat sampleState"
    by (simp add: onMessageInsert_state messageInsert_refresh_def messageInsert_branch_def Let_def
          split: option.splits sum.splits)
  have op1: "openConversation ?st1 sampleInsert"
    using sample_open by (simp add: openConversation_def sel)
  have "s_messages (fst (onMessageInsert ordinalCompare sampleFetch sampleInsert ?st1))
          = insertMessage_reducer sampleInsert (s_messages ?st1)"
    using branch_open [OF op1]
    by (simp only: onMessageInsert_state refresh_keeps_messages)
  also have "\<dots> = s_messages ?st1"
    by (rule insertMessage_skip [of "formatMessage sampleInsert"])
       (simp_all add: sample_messages)
  finally have again: "s_messages (fst (onMessageInsert ordinalCompare sampleFetch sampleInsert ?st1))
                         = s_messages ?st1" .
  from sample_open sample_messages again sample_effects show ?thesis
    by (simp only: simp_thms)
qed

text \<open>
  The general statement at work: Zed's message into the open conversation, where it
  is new and where it is there already; and the same event with no conversation
  open, which triggers the sound.
\<close>

theorem message_insert_handler_effects_witness:
  "openConversation sampleState sampleInsert \<and>
   s_messages (fst (onMessageInsert ordinalCompare sampleFetch sampleInsert sampleState))
     = s_messages sampleState @ [formatMessage sampleInsert] \<and>
   s_messages (fst (onMessageInsert ordinalCompare sampleFetch sampleInsert
        (sampleState\<lparr>s_messages := [formatMessage sampleInsert]\<rparr>)))
     = [formatMessage sampleInsert] \<and>
   MarkMessagesAsRead ''c1'' ''u-me''
     \<in> set (snd (onMessageInsert ordinalCompare sampleFetch sampleInsert sampleState)) \<and>
   PlayNotificationSound \<notin> set (snd (messageInsert_branch sampleInsert sampleState)) \<and>
   \<not> openConversation (sampleState\<lparr>s_selectedChat := None\<rparr>) sampleInsert \<and>
   PlayNotificationSound
     \<in> set (snd (onMessageInsert ordinalCompare sampleFetch sampleInsert
                   (sampleState\<lparr>s_selectedChat := None\<rparr>)))"
proof -
  let ?dup = "sampleState\<lparr>s_messages := [formatMessage sampleInsert]\<rparr>"
  have op: "openConversation sampleState sampleInsert"
    by (rule sample_open)
  have opdup: "openConversation ?dup sampleInsert"
    using sample_open by (simp add: openConversation_def)
  have me: "s_currentUser sampleState = Some ''u-me''"
    by (simp add: sampleState_def)
  have sel: "\<exists>c. s_selectedChat sampleState = Some c \<and> c_id c = ''c1''"
    by (simp add: sampleState_def)
  have fresh: "\<forall>m \<in> set (s_messages sampleState). m_id m \<noteq> r_id sampleInsert"
    by (simp add: sampleState_def sampleInsert_def insertedRow_def)
  have there: "\<exists>m \<in> set (s_messages ?dup). m_id m = r_id sampleInsert"
    by simp
  note inst = message_insert_handler_effects [of ordinalCompare sampleFetch sampleInsert sampleState]
  note opened = inst [THEN conjunct2, THEN mp, OF op]
  note dupped = message_insert_handler_effects
      [of ordinalCompare sampleFetch sampleInsert ?dup, THEN conjunct2, THEN mp, OF opdup]
  have a: "s_messages (fst (onMessageInsert ordinalCompare sampleFetch sampleInsert sampleState))
             = s_messages sampleState @ [formatMessage sampleInsert]"
    by (rule opened [THEN conjunct2, THEN conjunct1, THEN mp, OF fresh])
  have a2: "s_messages (fst (onMessageInsert ordinalCompare sampleFetch sampleInsert ?dup))
             = [formatMessage sampleInsert]"
    using dupped [THEN conjunct1, THEN mp, OF there] by simp
  from sel obtain ch where ch: "s_selectedChat sampleState = Some ch" "c_id ch = ''c1''"
    by blast
  from opened [THEN conjunct2, THEN conjunct2, THEN conjunct1, THEN spec, THEN spec, THEN mp,
               OF conjI, OF me ch(1)]
  have b: "MarkMessagesAsRead ''c1'' ''u-me''
             \<in> set (snd (onMessageInsert ordinalCompare sampleFetch sampleInsert sampleState))"
    by (simp only: ch(2))
  have c: "PlayNotificationSound \<notin> set (snd (messageInsert_branch sampleInsert sampleState))"
    by (rule opened [THEN conjunct2, THEN conjunct2, THEN conjunct2])
  have cl: "\<not> openConversation (sampleState\<lparr>s_selectedChat := None\<rparr>) sampleInsert"
    by (simp add: openConversation_def)
  have other: "s_currentUser (sampleState\<lparr>s_selectedChat := None\<rparr>) = Some ''u-me'' \<and>
               r_sender_id sampleInsert \<noteq> ''u-me''"
    by (simp add: sampleState_def sampleInsert_def insertedRow_def)
  have "(\<not> openConversation (sampleState\<lparr>s_selectedChat := None\<rparr>) sampleInsert \<and>
       (\<exists>u. s_currentUser (sampleState\<lparr>s_selectedChat := None\<rparr>) = Some u \<and>
            r_sender_id sampleInsert \<noteq> u)) \<or>
      (s_currentUser (sampleState\<lparr>s_selectedChat := None\<rparr>) \<noteq> None \<and>
       (\<exists>loaded. loadChats ordinalCompare sampleFetch
                   (s_totalUnread (sampleState\<lparr>s_selectedChat := None\<rparr>)) = Inr loaded \<and>
                 l_totalUnread loaded > s_totalUnread (sampleState\<lparr>s_selectedChat := None\<rparr>)))"
    using cl other by blast
  then have d: "PlayNotificationSound
     \<in> set (snd (onMessageInsert ordinalCompare sampleFetch sampleInsert
                   (sampleState\<lparr>s_selectedChat := None\<rparr>)))"
    by (rule message_insert_handler_effects
         [of ordinalCompare sampleFetch sampleInsert "sampleState\<lparr>s_selectedChat := None\<rparr>",
          THEN conjunct1, THEN iffD2])
  from op a a2 b c cl d show ?thesis
    by (simp only: simp_thms)
qed

section \<open>Properties of handleAcceptRequest\<close>

lemma regularChat_id [simp]: "c_id (regularChat ps m item) = uc_conversation_id item"
  by (simp add: regularChat_def Let_def)






section \<open>Properties of the polling fallback\<close>

lemma pollInv_init: "pollInv (pollInit chat)"
  by (simp add: pollInv_def pollInit_def)

lemma pollInv_sweeps: "pollInv s \<Longrightarrow> sweeps s = [] \<or> (\<exists>p. sweeps s = [p])"
  by (cases "sweeps s") (auto simp: pollInv_def)

lemma pollInv_resume: "pollInv s \<Longrightarrow> pollInv (resume i outcome s)"
proof -
  assume inv: "pollInv s"
  from pollInv_sweeps [OF inv] show ?thesis
  proof
    assume "sweeps s = []"
    then show ?thesis using inv by (simp add: resume_def)
  next
    assume "\<exists>p. sweeps s = [p]"
    then obtain p where p: "sweeps s = [p]" ..
    with inv show ?thesis
      by (cases i; cases outcome; cases p) (simp_all add: resume_def finish_def pollInv_def)
  qed
qed

lemma pollInv_step: "pollInv s \<Longrightarrow> pollInv (pollStep e s)"
  by (cases e) (auto simp: pollStep_def pollInv_resume, auto simp: pollInv_def)

lemma pollInv_fold: "pollInv s \<Longrightarrow> pollInv (fold pollStep events s)"
  by (induction events arbitrary: s) (simp_all add: pollInv_step)

lemma pollInv_run: "pollInv (pollRun chat events)"
  by (simp add: pollRun_def pollInv_fold pollInv_init)


lemma successfulTick_resets:
  assumes inv: "pollInv s" and idle: "sweeps s = []" and timer: "timerActive s"
  shows "consecutiveErrors (fold pollStep (successfulTick s) s) = 0 \<and>
         sweeps (fold pollStep (successfulTick s) s) = [] \<and>
         \<not> isPolling (fold pollStep (successfulTick s) s)"
proof -
  from inv idle have np: "\<not> isPolling s" by (simp add: pollInv_def)
  with idle timer show ?thesis
    by (cases "chatSelected s")
       (simp_all add: successfulTick_def pollStep_def resume_def finish_def)
qed

text \<open>
  Claim C3 (poll re-entrancy). After every run of events, however the firings of
  the interval and the settling of the awaited calls interleave: at most one
  sweep is in flight; an interval that fires while a sweep is in flight leaves the
  state as it is, so the tick is skipped and nothing is queued; a call that throws
  inside the sweep in flight adds one to the counter of failures, ends that sweep
  and leaves the interval set; and a tick on which nothing throws, started when no
  sweep is in flight, ends with the counter at zero.
\<close>

theorem poll_reentrancy:
  "length (sweeps (pollRun chat events)) \<le> 1 \<and>
   (sweeps (pollRun chat events) \<noteq> []
      \<longrightarrow> pollStep TimerFires (pollRun chat events) = pollRun chat events) \<and>
   (i < length (sweeps (pollRun chat events))
      \<longrightarrow> consecutiveErrors (pollStep (Settles i Thrown) (pollRun chat events))
            = consecutiveErrors (pollRun chat events) + 1 \<and>
          timerActive (pollStep (Settles i Thrown) (pollRun chat events))
            = timerActive (pollRun chat events) \<and>
          sweeps (pollStep (Settles i Thrown) (pollRun chat events)) = [] \<and>
          \<not> isPolling (pollStep (Settles i Thrown) (pollRun chat events))) \<and>
   (sweeps (pollRun chat events) = [] \<and> timerActive (pollRun chat events)
      \<longrightarrow> consecutiveErrors
            (fold pollStep (successfulTick (pollRun chat events)) (pollRun chat events)) = 0)"
proof -
  let ?s = "pollRun chat events"
  have inv: "pollInv ?s" by (rule pollInv_run)
  have one: "length (sweeps ?s) \<le> 1"
    using inv by (simp add: pollInv_def)
  have skip: "sweeps ?s \<noteq> [] \<Longrightarrow> pollStep TimerFires ?s = ?s"
    using inv by (simp add: pollInv_def pollStep_def)
  have thrown: "consecutiveErrors (pollStep (Settles i Thrown) ?s) = consecutiveErrors ?s + 1 \<and>
          timerActive (pollStep (Settles i Thrown) ?s) = timerActive ?s \<and>
          sweeps (pollStep (Settles i Thrown) ?s) = [] \<and>
          \<not> isPolling (pollStep (Settles i Thrown) ?s)"
    if "i < length (sweeps ?s)"
  proof -
    from that one have i0: "i = 0" by simp
    from that pollInv_sweeps [OF inv] obtain p where p: "sweeps ?s = [p]" by auto
    show ?thesis
      by (simp add: pollStep_def resume_def finish_def p i0)
  qed
  have good: "consecutiveErrors (fold pollStep (successfulTick ?s) ?s) = 0"
    if "sweeps ?s = [] \<and> timerActive ?s"
    using successfulTick_resets [OF inv] that by blast
  from one skip thrown good show ?thesis
    by blast
qed

text \<open>
  The interval fires twice before \<^verbatim>\<open>loadChats\<close> settles: one sweep, and a third firing
  changes nothing. A sweep whose \<^verbatim>\<open>loadChats\<close> throws leaves the counter at 1, and
  the successful tick after it at 0.
\<close>

theorem poll_reentrancy_witness:
  "sweeps (pollRun True [TimerFires, TimerFires]) = [AwaitLoadChats] \<and>
   pollStep TimerFires (pollRun True [TimerFires, TimerFires]) = pollRun True [TimerFires, TimerFires] \<and>
   consecutiveErrors (pollStep (Settles 0 Thrown) (pollRun True [TimerFires, TimerFires])) = 1 \<and>
   timerActive (pollStep (Settles 0 Thrown) (pollRun True [TimerFires, TimerFires])) \<and>
   sweeps (pollRun True [TimerFires, Settles 0 Thrown]) = [] \<and>
   consecutiveErrors (pollRun True [TimerFires, Settles 0 Thrown]) = 1 \<and>
   consecutiveErrors
     (fold pollStep (successfulTick (pollRun True [TimerFires, Settles 0 Thrown]))
        (pollRun True [TimerFires, Settles 0 Thrown])) = 0"
proof -
  let ?busy = "pollRun True [TimerFires, TimerFires]"
  let ?failed = "pollRun True [TimerFires, Settles 0 Thrown]"
  have busy: "?busy = \<lparr> isPolling = True, consecutiveErrors = 0, sweeps = [AwaitLoadChats],
                        timerActive = True, chatSelected = True \<rparr>"
    by (simp add: pollRun_def pollInit_def pollStep_def)
  have failed: "?failed = \<lparr> isPolling = False, consecutiveErrors = 1, sweeps = [],
                            timerActive = True, chatSelected = True \<rparr>"
    by (simp add: pollRun_def pollInit_def pollStep_def resume_def finish_def)
  have b1: "sweeps ?busy = [AwaitLoadChats]" "sweeps ?busy \<noteq> []" "0 < length (sweeps ?busy)"
      "consecutiveErrors ?busy = 0" "timerActive ?busy"
    by (simp_all add: busy)
  have f1: "sweeps ?failed = []" "consecutiveErrors ?failed = 1"
      "sweeps ?failed = [] \<and> timerActive ?failed"
    by (simp_all add: failed)
  note atBusy = poll_reentrancy [of True "[TimerFires, TimerFires]" 0]
  note atFailed = poll_reentrancy [of True "[TimerFires, Settles 0 Thrown]" 0]
  have a: "pollStep TimerFires ?busy = ?busy"
    by (rule atBusy [THEN conjunct2, THEN conjunct1, THEN mp, OF b1(2)])
  note thr = atBusy [THEN conjunct2, THEN conjunct2, THEN conjunct1, THEN mp, OF b1(3)]
  have b: "consecutiveErrors (pollStep (Settles 0 Thrown) ?busy) = 1"
    using thr [THEN conjunct1] by (simp add: b1(4))
  have c: "timerActive (pollStep (Settles 0 Thrown) ?busy)"
    using thr [THEN conjunct2, THEN conjunct1] b1(5) by (simp only: simp_thms)
  have d: "consecutiveErrors (fold pollStep (successfulTick ?failed) ?failed) = 0"
    by (rule atFailed [THEN conjunct2, THEN conjunct2, THEN conjunct2, THEN mp, OF f1(3)])
  from b1(1) a b c f1(1) f1(2) d show ?thesis
    by (simp only: simp_thms)
qed

section \<open>Properties of the call window\<close>

lemmas call_defs = callRun_def callStep_def syncRefs_def onCallOffer_def onIceCandidate_def candidateEffect_def
  gotUserMedia_def createPeerConnection_def remoteDescriptionSet_def onCallEnded_def
  cleanup_def handleEndCall_def handleEnd_def sampleOffer_def Let_def

lemma candidateEffect_call [simp]: "a_activeCall (candidateEffect app) = a_activeCall app"
  by (simp add: candidateEffect_def split: option.splits prod.splits)

text \<open>
  What does hold of the candidates: a candidate for the call that the ref holds is
  appended to the list of the call in the state, and the effect hands candidates
  to a peer connection only when that has a remote description.
\<close>

lemma candidate_buffered:
  assumes "a_currentUser app = Some me" and "a_activeCallRef app = Some ref"
    and "k_id ref = payloadId" and "a_activeCall app = Some call"
  shows "map_option k_iceCandidates (a_activeCall (onIceCandidate payloadId me candidate app))
           = Some (Some ((case k_iceCandidates call of Some cs \<Rightarrow> cs | None \<Rightarrow> []) @ [candidate]))"
  using assms by (simp add: onIceCandidate_def)

lemma candidateEffect_needs_description:
  assumes "a_pcs (candidateEffect app) \<noteq> a_pcs app"
  shows "\<exists>h < length (a_pcs app). pc_remoteDescription (a_pcs app ! h) \<noteq> None"
  using assms by (auto simp: candidateEffect_def split: option.splits prod.splits if_splits)

text \<open>
  Claim C7 (ICE candidate buffering) on the code: Bob receives Alice's offer and a
  candidate before his media and peer connection exist. The candidate is buffered
  in the call state, but when the remote description is set afterwards no
  candidate is handed to the peer connection, since nothing runs the effect then.
  Only the next candidate runs it, and each run hands over the whole list again.
\<close>

theorem buffered_candidate_not_applied:
  "map_option k_iceCandidates
     (a_activeCall (callRun ''bob''
        [CallOffer sampleOffer, RefsSynced, IceCandidate ''k1'' ''bob'' ''cand1'',
         GotUserMedia 0 [''audio'', ''video''], PeerConnectionCreated,
         RemoteDescriptionSet ''offer-sdp''])) = Some (Some [''cand1'']) \<and>
   a_pcs (callRun ''bob''
        [CallOffer sampleOffer, RefsSynced, IceCandidate ''k1'' ''bob'' ''cand1'',
         GotUserMedia 0 [''audio'', ''video''], PeerConnectionCreated,
         RemoteDescriptionSet ''offer-sdp''])
     = [\<lparr> pc_closed = False, pc_remoteDescription = Some ''offer-sdp'', pc_added = [] \<rparr>] \<and>
   map pc_added (a_pcs (callRun ''bob''
        [CallOffer sampleOffer, RefsSynced, IceCandidate ''k1'' ''bob'' ''cand1'',
         GotUserMedia 0 [''audio'', ''video''], PeerConnectionCreated,
         RemoteDescriptionSet ''offer-sdp'',
         IceCandidate ''k1'' ''bob'' ''cand2'', IceCandidate ''k1'' ''bob'' ''cand3'']))
     = [[''cand1'', ''cand2'', ''cand1'', ''cand2'', ''cand3'']]"
  by (simp add: call_defs upt_rec)

text \<open>
  Claim C8 (call-termination resource release) on the code: when the peer's
  end-of-call signal arrives, the call is dropped and the window unmounted, but both
  tracks stay live and the peer connection stays open; the local hang-up stops both
  tracks and closes the peer connection.
\<close>

theorem call_ended_releases_nothing:
  "a_activeCall (callRun ''bob''
      [CallOffer sampleOffer, RefsSynced, GotUserMedia 0 [''audio'', ''video''],
       PeerConnectionCreated,
       RemoteDescriptionSet ''offer-sdp'', CallEnded ''k1'']) = None \<and>
   a_window (callRun ''bob''
      [CallOffer sampleOffer, RefsSynced, GotUserMedia 0 [''audio'', ''video''],
       PeerConnectionCreated,
       RemoteDescriptionSet ''offer-sdp'', CallEnded ''k1'']) = None \<and>
   map tr_stopped (a_tracks (callRun ''bob''
      [CallOffer sampleOffer, RefsSynced, GotUserMedia 0 [''audio'', ''video''],
       PeerConnectionCreated,
       RemoteDescriptionSet ''offer-sdp'', CallEnded ''k1''])) = [False, False] \<and>
   map pc_closed (a_pcs (callRun ''bob''
      [CallOffer sampleOffer, RefsSynced, GotUserMedia 0 [''audio'', ''video''],
       PeerConnectionCreated,
       RemoteDescriptionSet ''offer-sdp'', CallEnded ''k1''])) = [False] \<and>
   map tr_stopped (a_tracks (callRun ''bob''
      [CallOffer sampleOffer, RefsSynced, GotUserMedia 0 [''audio'', ''video''],
       PeerConnectionCreated,
       RemoteDescriptionSet ''offer-sdp'', HangUp])) = [True, True] \<and>
   map pc_closed (a_pcs (callRun ''bob''
      [CallOffer sampleOffer, RefsSynced, GotUserMedia 0 [''audio'', ''video''],
       PeerConnectionCreated,
       RemoteDescriptionSet ''offer-sdp'', HangUp])) = [True]"
  by (simp add: call_defs upt_rec)

text \<open>
  Two more runs: a candidate that arrives before the effect has brought the ref
  up to date is dropped, not buffered; and a stream that \<^verbatim>\<open>getUserMedia\<close> delivers
  after the peer has ended the call leaves two live tracks behind.
\<close>

lemma early_candidate_dropped:
  "map_option k_iceCandidates
     (a_activeCall (callRun ''bob''
        [CallOffer sampleOffer, IceCandidate ''k1'' ''bob'' ''cand1'', RefsSynced]))
     = Some (Some [])"
  by (simp add: call_defs)

lemma late_stream_stays_live:
  "map tr_stopped (a_tracks (callRun ''bob''
      [CallOffer sampleOffer, RefsSynced, CallEnded ''k1'', RefsSynced,
       GotUserMedia 0 [''audio'', ''video'']])) = [False, False] \<and>
   a_window (callRun ''bob''
      [CallOffer sampleOffer, RefsSynced, CallEnded ''k1'', RefsSynced,
       GotUserMedia 0 [''audio'', ''video'']]) = None"
  by (simp add: call_defs)

end
